theory Spec2Isabelle
  imports Complex_Main "HOL-Library.Sublist" "HOL-Library.AList"
begin

section \<open>JavaScript values\<close>

text \<open>
  The quiz application is written in TypeScript. The service module works on values of
  type \<open>any\<close> (the result of \<open>JSON.parse\<close>), so the model carries a datatype of
  JavaScript values. A JavaScript string is a sequence of 16-bit code units. Its model is
  a \<^typ>\<open>string\<close> that writes a code unit below \<open>0x80\<close> as that one character and any
  other code unit as the two or three bytes, all from \<open>0x80\<close> on, that the UTF-8 scheme
  gives it. A text and its model determine each other, and the ASCII characters occur in
  the model where they occur in the text.
\<close>

subsection \<open>Numbers\<close>

text \<open>
  A JavaScript number is an IEEE 754 binary64 value. Every finite one is a rational, so the
  model is \<open>Num q\<close> for the finite value \<open>q\<close>, and three constructors for \<open>NaN\<close> and the
  infinities. The sign of zero is not modelled: no operation below observes it.
\<close>

datatype jsnum = Num rat | NaN | PosInfinity | NegInfinity

function bitlen :: "int \<Rightarrow> int" where
  \<comment> \<open>The number of binary digits of a positive integer.\<close>
  "bitlen n = (if n \<le> 0 then 0 else 1 + bitlen (n div 2))"
  by pat_completeness auto
termination
  by (relation "measure nat") auto

declare bitlen.simps [simp del]

definition ilog2 :: "rat \<Rightarrow> int" where
  \<comment> \<open>For \<open>0 < a\<close>: the integer \<open>e\<close> with \<open>2^e \<le> a < 2^(e+1)\<close>.\<close>
  "ilog2 a =
     (let (p, d) = quotient_of a;
          k = bitlen p - bitlen d
      in if a < 2 powi k then k - 1 else k)"

definition round_half_even :: "rat \<Rightarrow> int" where
  "round_half_even m =
     (let f = \<lfloor>m\<rfloor>; r = m - of_int f
      in if r < 1 / 2 then f
         else if 1 / 2 < r then f + 1
         else if even f then f else f + 1)"

definition toDouble :: "rat \<Rightarrow> jsnum" where
  \<comment> \<open>Round to nearest binary64, ties to even: 53 significant bits, least exponent
      \<open>-1022\<close> (subnormals below it), overflow to an infinity from \<open>2^1024\<close> on.\<close>
  "toDouble q =
     (if q = 0 then Num 0
      else let a = \<bar>q\<bar>;
               e = max (ilog2 a) (- 1022);
               ulp = 2 powi (e - 52);
               r = of_int (round_half_even (a / ulp)) * ulp
           in if 2 ^ 1024 \<le> r then (if 0 < q then PosInfinity else NegInfinity)
              else Num (sgn q * r))"

fun js_div :: "jsnum \<Rightarrow> jsnum \<Rightarrow> jsnum" where
  "js_div (Num a) (Num b) =
     (if b = 0 then (if a = 0 then NaN else if 0 < a then PosInfinity else NegInfinity)
      else toDouble (a / b))"
| "js_div NaN _ = NaN"
| "js_div _ NaN = NaN"
| "js_div (Num a) PosInfinity = Num 0"
| "js_div (Num a) NegInfinity = Num 0"
| "js_div PosInfinity (Num b) = (if b < 0 then NegInfinity else PosInfinity)"
| "js_div NegInfinity (Num b) = (if b < 0 then PosInfinity else NegInfinity)"
| "js_div PosInfinity PosInfinity = NaN"
| "js_div PosInfinity NegInfinity = NaN"
| "js_div NegInfinity PosInfinity = NaN"
| "js_div NegInfinity NegInfinity = NaN"

fun js_mul :: "jsnum \<Rightarrow> jsnum \<Rightarrow> jsnum" where
  "js_mul (Num a) (Num b) = toDouble (a * b)"
| "js_mul NaN _ = NaN"
| "js_mul _ NaN = NaN"
| "js_mul (Num a) PosInfinity =
     (if a = 0 then NaN else if 0 < a then PosInfinity else NegInfinity)"
| "js_mul (Num a) NegInfinity =
     (if a = 0 then NaN else if 0 < a then NegInfinity else PosInfinity)"
| "js_mul PosInfinity (Num b) =
     (if b = 0 then NaN else if 0 < b then PosInfinity else NegInfinity)"
| "js_mul NegInfinity (Num b) =
     (if b = 0 then NaN else if 0 < b then NegInfinity else PosInfinity)"
| "js_mul PosInfinity PosInfinity = PosInfinity"
| "js_mul NegInfinity NegInfinity = PosInfinity"
| "js_mul PosInfinity NegInfinity = NegInfinity"
| "js_mul NegInfinity PosInfinity = NegInfinity"

fun Math_round :: "jsnum \<Rightarrow> jsnum" where
  \<comment> \<open>The integer nearest to the argument, the one towards \<open>+\<infinity>\<close> at a tie.\<close>
  "Math_round (Num x) = Num (of_int \<lfloor>x + 1 / 2\<rfloor>)"
| "Math_round n = n"

fun js_le :: "jsnum \<Rightarrow> jsnum \<Rightarrow> bool" where
  \<comment> \<open>\<open>a <= b\<close> on numbers; every comparison with \<open>NaN\<close> is false.\<close>
  "js_le NaN _ = False"
| "js_le _ NaN = False"
| "js_le (Num a) (Num b) = (a \<le> b)"
| "js_le NegInfinity _ = True"
| "js_le _ PosInfinity = True"
| "js_le _ _ = False"

definition js_ge :: "jsnum \<Rightarrow> jsnum \<Rightarrow> bool" where
  "js_ge a b = js_le b a"

fun strict_eq_num :: "jsnum \<Rightarrow> jsnum \<Rightarrow> bool" where
  \<comment> \<open>\<open>a === b\<close> on numbers: \<open>NaN\<close> equals nothing, itself included.\<close>
  "strict_eq_num NaN _ = False"
| "strict_eq_num _ NaN = False"
| "strict_eq_num a b = (a = b)"

subsection \<open>Values, thrown errors, property access\<close>

datatype jsval =
    JUndefined
  | JNull
  | JBool bool
  | JNumber jsnum
  | JString string
  | JArray "jsval list"
  | JObject "(string \<times> jsval) list"

text \<open>
  An object is the list of its own properties in insertion order. The thrown values are
  the \<open>Error\<close> objects of the three classes the code can meet; each carries its message.
  The wording of a \<open>TypeError\<close> or a \<open>SyntaxError\<close> that the platform throws depends on
  the engine; the model gives each a fixed wording.
\<close>

datatype exn = Error string | TypeError string | SyntaxError string

fun exn_message :: "exn \<Rightarrow> string" where
  "exn_message (Error m) = m"
| "exn_message (TypeError m) = m"
| "exn_message (SyntaxError m) = m"

fun typeof :: "jsval \<Rightarrow> string" where
  "typeof JUndefined = ''undefined''"
| "typeof JNull = ''object''"
| "typeof (JBool _) = ''boolean''"
| "typeof (JNumber _) = ''number''"
| "typeof (JString _) = ''string''"
| "typeof (JArray _) = ''object''"
| "typeof (JObject _) = ''object''"

fun truthy :: "jsval \<Rightarrow> bool" where
  "truthy JUndefined = False"
| "truthy JNull = False"
| "truthy (JBool b) = b"
| "truthy (JNumber n) = (n \<noteq> Num 0 \<and> n \<noteq> NaN)"
| "truthy (JString s) = (s \<noteq> [])"
| "truthy (JArray _) = True"
| "truthy (JObject _) = True"

fun Array_isArray :: "jsval \<Rightarrow> bool" where
  "Array_isArray (JArray _) = True"
| "Array_isArray _ = False"

fun array_items :: "jsval \<Rightarrow> jsval list" where
  "array_items (JArray xs) = xs"
| "array_items _ = []"

fun string_value :: "jsval \<Rightarrow> string" where
  "string_value (JString s) = s"
| "string_value _ = []"

fun number_value :: "jsval \<Rightarrow> jsnum" where
  "number_value (JNumber n) = n"
| "number_value _ = NaN"

fun nullish :: "jsval \<Rightarrow> bool" where
  "nullish JUndefined = True"
| "nullish JNull = True"
| "nullish _ = False"

fun field :: "jsval \<Rightarrow> string \<Rightarrow> jsval" where
  \<comment> \<open>\<open>v.k\<close> for a value that is neither \<open>null\<close> nor \<open>undefined\<close> and a name \<open>k\<close> that
      is a data property: the six names the service reads (\<open>id\<close>, \<open>question\<close>, \<open>options\<close>,
      \<open>correctAnswer\<close>, \<open>questions\<close>, \<open>message\<close>) are not inherited by any value.\<close>
  "field (JObject kvs) k = (case map_of kvs k of None \<Rightarrow> JUndefined | Some v \<Rightarrow> v)"
| "field _ k = JUndefined"

definition getProp :: "jsval \<Rightarrow> string \<Rightarrow> exn + jsval" where
  \<comment> \<open>Reading a property of \<open>null\<close> or \<open>undefined\<close> throws a \<open>TypeError\<close>.\<close>
  "getProp v k =
     (if nullish v then Inl (TypeError (''Cannot read properties of '' @
                                        (if v = JNull then ''null'' else ''undefined'')))
      else Inr (field v k))"

section \<open>The AI service\<close>

subsection \<open>Validation of one question\<close>

definition validateQuestion :: "jsval \<Rightarrow> exn + bool" where
  "validateQuestion question =
     (case getProp question ''id'' of
        Inl e \<Rightarrow> Inl e
      | Inr qid \<Rightarrow>
          Inr (typeof qid = ''string'' \<and>
               typeof (field question ''question'') = ''string'' \<and>
               Array_isArray (field question ''options'') \<and>
               length (array_items (field question ''options'')) = 4 \<and>
               list_all (\<lambda>opt. typeof opt = ''string'')
                 (array_items (field question ''options'')) \<and>
               typeof (field question ''correctAnswer'') = ''number'' \<and>
               js_ge (number_value (field question ''correctAnswer'')) (Num 0) \<and>
               js_le (number_value (field question ''correctAnswer'')) (Num 3)))"

subsection \<open>\<open>JSON.parse\<close>\<close>

text \<open>
  \<open>JSON.parse\<close> belongs to the platform. Its model follows the JSON grammar of ECMA-404:
  a scanner over the characters, then a pushdown recogniser over the tokens that builds
  the value. A repeated key keeps its first position and takes the last value, as in
  JavaScript. A number is the binary64 value nearest to the decimal literal. An escape
  \<open>\uXXXX\<close> stands for the code unit \<open>XXXX\<close>.
\<close>

datatype token =
    TLBrace | TRBrace | TLBracket | TRBracket | TColon | TComma | TValue jsval

definition is_digit :: "char \<Rightarrow> bool" where
  "is_digit c = (48 \<le> (of_char c :: nat) \<and> (of_char c :: nat) \<le> 57)"

definition digit_val :: "char \<Rightarrow> int" where
  "digit_val c = of_char c - 48"

definition digits_value :: "string \<Rightarrow> int" where
  "digits_value ds = foldl (\<lambda>n c. 10 * n + digit_val c) 0 ds"

definition hex_val :: "char \<Rightarrow> nat option" where
  "hex_val c =
     (let n = (of_char c :: nat)
      in if 48 \<le> n \<and> n \<le> 57 then Some (n - 48)
         else if 65 \<le> n \<and> n \<le> 70 then Some (n - 55)
         else if 97 \<le> n \<and> n \<le> 102 then Some (n - 87)
         else None)"

definition is_ws :: "char \<Rightarrow> bool" where
  "is_ws c = (c = CHR '' '' \<or> c = CHR 0x09 \<or> c = CHR 0x0A \<or> c = CHR 0x0D)"

definition is_word_char :: "char \<Rightarrow> bool" where
  \<comment> \<open>The characters of the literals \<open>true\<close>, \<open>false\<close>, \<open>null\<close> and of numbers.\<close>
  "is_word_char c =
     (let n = (of_char c :: nat)
      in (48 \<le> n \<and> n \<le> 57) \<or> (65 \<le> n \<and> n \<le> 90) \<or> (97 \<le> n \<and> n \<le> 122) \<or>
         c = CHR ''+'' \<or> c = CHR ''-'' \<or> c = CHR ''.'')"

definition number_exponent :: "string \<Rightarrow> int option" where
  \<comment> \<open>What follows \<open>e\<close> or \<open>E\<close>: an optional sign and at least one digit, to the end.\<close>
  "number_exponent r =
     (let (neg, ds) = (case r of
                         c # r' \<Rightarrow> if c = CHR ''-'' then (True, r')
                                   else if c = CHR ''+'' then (False, r') else (False, r)
                       | [] \<Rightarrow> (False, r))
      in if ds \<noteq> [] \<and> list_all is_digit ds
         then Some (if neg then - digits_value ds else digits_value ds)
         else None)"

definition parse_number :: "string \<Rightarrow> rat option" where
  \<comment> \<open>\<open>-? (0 | [1-9][0-9]*) (. [0-9]+)? ([eE] [+-]? [0-9]+)?\<close>, the whole word.\<close>
  "parse_number s =
     (let (neg, s1) = (case s of
                         c # r \<Rightarrow> if c = CHR ''-'' then (True, r) else (False, s)
                       | [] \<Rightarrow> (False, s));
          ip = takeWhile is_digit s1;
          s2 = dropWhile is_digit s1;
          (frac_ok, fp, s3) =
            (case s2 of
               c # r \<Rightarrow> if c = CHR ''.''
                         then (takeWhile is_digit r \<noteq> [], takeWhile is_digit r,
                               dropWhile is_digit r)
                         else (True, [], s2)
             | [] \<Rightarrow> (True, [], s2));
          ex = (case s3 of
                  [] \<Rightarrow> Some 0
                | c # r \<Rightarrow> if c = CHR ''e'' \<or> c = CHR ''E'' then number_exponent r else None)
      in if ip = [] \<or> (hd ip = CHR ''0'' \<and> 1 < length ip) \<or> \<not> frac_ok then None
         else (case ex of
                 None \<Rightarrow> None
               | Some e \<Rightarrow>
                   Some ((if neg then - 1 else 1) *
                         (of_int (digits_value (ip @ fp)) / 10 ^ length fp) * 10 powi e)))"

definition classify_word :: "string \<Rightarrow> token option" where
  "classify_word w =
     (if w = ''true'' then Some (TValue (JBool True))
      else if w = ''false'' then Some (TValue (JBool False))
      else if w = ''null'' then Some (TValue JNull)
      else map_option (\<lambda>q. TValue (JNumber (toDouble q))) (parse_number w))"

definition punctuation :: "char \<Rightarrow> token option" where
  "punctuation c =
     (if c = CHR ''{'' then Some TLBrace
      else if c = CHR ''}'' then Some TRBrace
      else if c = CHR ''['' then Some TLBracket
      else if c = CHR '']'' then Some TRBracket
      else if c = CHR '':'' then Some TColon
      else if c = CHR '','' then Some TComma
      else None)"

definition unescape :: "char \<Rightarrow> char option" where
  "unescape c =
     (if c = CHR 0x22 \<or> c = CHR 0x5C \<or> c = CHR ''/'' then Some c
      else if c = CHR ''b'' then Some (CHR 0x08)
      else if c = CHR ''f'' then Some (CHR 0x0C)
      else if c = CHR ''n'' then Some (CHR 0x0A)
      else if c = CHR ''r'' then Some (CHR 0x0D)
      else if c = CHR ''t'' then Some (CHR 0x09)
      else None)"

definition code_unit :: "nat \<Rightarrow> string" where
  \<comment> \<open>The characters that stand for one code unit (a number below \<open>0x10000\<close>).\<close>
  "code_unit u =
     (if u < 128 then [char_of u]
      else if u < 2048 then [char_of (192 + u div 64), char_of (128 + u mod 64)]
      else [char_of (224 + u div 4096), char_of (128 + u div 64 mod 64),
            char_of (128 + u mod 64)])"

datatype lexmode =
    LNormal
  | LWord string
  | LString string
  | LEscape string
  | LUnicode string "nat list"

fun lex_start :: "char \<Rightarrow> (lexmode + token) option" where
  \<comment> \<open>A character met between tokens: it is skipped, is a token, or opens one.\<close>
  "lex_start c =
     (if is_ws c then Some (Inl LNormal)
      else if c = CHR 0x22 then Some (Inl (LString []))
      else if is_word_char c then Some (Inl (LWord [c]))
      else map_option Inr (punctuation c))"

fun lex :: "lexmode \<Rightarrow> string \<Rightarrow> token list option" where
  "lex LNormal [] = Some []"
| "lex (LWord w) [] = map_option (\<lambda>t. [t]) (classify_word w)"
| "lex _ [] = None"
| "lex LNormal (c # cs) =
     (case lex_start c of
        None \<Rightarrow> None
      | Some (Inl m) \<Rightarrow> lex m cs
      | Some (Inr t) \<Rightarrow> map_option ((#) t) (lex LNormal cs))"
| "lex (LWord w) (c # cs) =
     (if is_word_char c then lex (LWord (w @ [c])) cs
      else (case (classify_word w, lex_start c) of
              (Some tw, Some (Inl m)) \<Rightarrow> map_option ((#) tw) (lex m cs)
            | (Some tw, Some (Inr t)) \<Rightarrow> map_option (\<lambda>ts. tw # t # ts) (lex LNormal cs)
            | _ \<Rightarrow> None))"
| "lex (LString acc) (c # cs) =
     (if c = CHR 0x22 then map_option ((#) (TValue (JString acc))) (lex LNormal cs)
      else if c = CHR 0x5C then lex (LEscape acc) cs
      else if (of_char c :: nat) < 32 then None
      else lex (LString (acc @ [c])) cs)"
| "lex (LEscape acc) (c # cs) =
     (if c = CHR ''u'' then lex (LUnicode acc []) cs
      else (case unescape c of
              None \<Rightarrow> None
            | Some d \<Rightarrow> lex (LString (acc @ [d])) cs))"
| "lex (LUnicode acc hs) (c # cs) =
     (case hex_val c of
        None \<Rightarrow> None
      | Some h \<Rightarrow>
          if length hs < 3 then lex (LUnicode acc (hs @ [h])) cs
          else lex (LString (acc @ code_unit (foldl (\<lambda>n d. 16 * n + d) 0 (hs @ [h])))) cs)"

datatype frame =
    FArray "jsval list"
  | FObject "(string \<times> jsval) list"
  | FMember "(string \<times> jsval) list" string

datatype pstate =
    ExpValue
  | ExpValueOrEnd
  | ExpKeyOrEnd
  | ExpKey
  | ExpColon
  | AfterValue
  | Done jsval

fun deliver :: "jsval \<Rightarrow> frame list \<Rightarrow> (pstate \<times> frame list) option" where
  \<comment> \<open>A value is complete: it is the result, an element, or the value of a member.\<close>
  "deliver v [] = Some (Done v, [])"
| "deliver v (FArray xs # st) = Some (AfterValue, FArray (xs @ [v]) # st)"
| "deliver v (FMember ms k # st) = Some (AfterValue, FObject (AList.update k v ms) # st)"
| "deliver v (FObject ms # st) = None"

fun open_value :: "token \<Rightarrow> frame list \<Rightarrow> (pstate \<times> frame list) option" where
  "open_value (TValue v) st = deliver v st"
| "open_value TLBracket st = Some (ExpValueOrEnd, FArray [] # st)"
| "open_value TLBrace st = Some (ExpKeyOrEnd, FObject [] # st)"
| "open_value _ st = None"

fun pstep :: "pstate \<Rightarrow> frame list \<Rightarrow> token \<Rightarrow> (pstate \<times> frame list) option" where
  "pstep ExpValue st t = open_value t st"
| "pstep ExpValueOrEnd (FArray xs # st) TRBracket = deliver (JArray xs) st"
| "pstep ExpValueOrEnd st t = open_value t st"
| "pstep ExpKeyOrEnd (FObject ms # st) TRBrace = deliver (JObject ms) st"
| "pstep ExpKeyOrEnd (FObject ms # st) (TValue (JString k)) = Some (ExpColon, FMember ms k # st)"
| "pstep ExpKey (FObject ms # st) (TValue (JString k)) = Some (ExpColon, FMember ms k # st)"
| "pstep ExpColon st TColon = Some (ExpValue, st)"
| "pstep AfterValue (FArray xs # st) TComma = Some (ExpValue, FArray xs # st)"
| "pstep AfterValue (FArray xs # st) TRBracket = deliver (JArray xs) st"
| "pstep AfterValue (FObject ms # st) TComma = Some (ExpKey, FObject ms # st)"
| "pstep AfterValue (FObject ms # st) TRBrace = deliver (JObject ms) st"
| "pstep p st t = None"

fun prun :: "pstate \<Rightarrow> frame list \<Rightarrow> token list \<Rightarrow> jsval option" where
  "prun (Done v) st [] = Some v"
| "prun _ st [] = None"
| "prun p st (t # ts) =
     (case pstep p st t of None \<Rightarrow> None | Some (p', st') \<Rightarrow> prun p' st' ts)"

definition JSON_parse :: "string \<Rightarrow> exn + jsval" where
  "JSON_parse text =
     (case lex LNormal text of
        None \<Rightarrow> Inl (SyntaxError ''Unexpected token in JSON'')
      | Some ts \<Rightarrow>
          (case prun ExpValue [] ts of
             None \<Rightarrow> Inl (SyntaxError ''Unexpected token in JSON'')
           | Some v \<Rightarrow> Inr v))"

subsection \<open>Extraction of the JSON payload\<close>

text \<open>
  \<open>text.match(/\{[\s\S]*\}/)\<close>: the regular expression is tried at each position from the
  left; at a position it needs \<open>{\<close>, then takes as many characters as it can and gives
  them back one at a time until \<open>}\<close> follows.
\<close>

fun longest_to_close :: "string \<Rightarrow> string option" where
  \<comment> \<open>\<open>[\s\S]*\}\<close> at the head of the text: the longest prefix that ends with \<open>}\<close>.\<close>
  "longest_to_close [] = None"
| "longest_to_close (c # cs) =
     (case longest_to_close cs of
        Some r \<Rightarrow> Some (c # r)
      | None \<Rightarrow> if c = CHR ''}'' then Some [c] else None)"

fun match_here :: "string \<Rightarrow> string option" where
  "match_here [] = None"
| "match_here (c # cs) =
     (if c = CHR ''{'' then map_option ((#) c) (longest_to_close cs) else None)"

fun jsonMatch :: "string \<Rightarrow> string option" where
  "jsonMatch [] = None"
| "jsonMatch (c # cs) =
     (case match_here (c # cs) of Some m \<Rightarrow> Some m | None \<Rightarrow> jsonMatch cs)"

definition extractJSON :: "string \<Rightarrow> exn + jsval" where
  "extractJSON text =
     (case jsonMatch text of
        None \<Rightarrow> Inl (Error ''No JSON found in AI response'')
      | Some m \<Rightarrow> JSON_parse m)"

subsection \<open>Configuration and prompts\<close>

definition MAX_RETRIES :: int where
  "MAX_RETRIES = 3"

definition RETRY_DELAY :: int where
  "RETRY_DELAY = 1000"

text \<open>
  A template literal renders a number by \<open>ToString\<close>. The counts and the score that reach
  the prompts are integers, printed in decimal. (From \<open>10^21\<close> on \<open>ToString\<close> switches to
  the exponent form; counts and scores are far below.)
\<close>

fun show_nat :: "nat \<Rightarrow> string" where
  "show_nat n =
     (if n < 10 then [char_of (48 + n)]
      else show_nat (n div 10) @ [char_of (48 + n mod 10)])"

declare show_nat.simps [simp del]

definition show_int :: "int \<Rightarrow> string" where
  "show_int i = (if i < 0 then CHR ''-'' # show_nat (nat (- i)) else show_nat (nat i))"

definition generateQuestionsPrompt :: "string \<Rightarrow> int \<Rightarrow> string" where
  \<open>generateQuestionsPrompt topic count =
     ''Generate exactly '' @ show_int count @ '' multiple choice questions about '' @ topic @
     ''.\<newline>Return ONLY valid JSON in this exact format with no additional text:\<newline>'' @
     ''{\<newline>  "questions": [\<newline>    {\<newline>      "id": "unique-id",\<newline>'' @
     ''      "question": "Question text here?",\<newline>'' @
     ''      "options": ["Option A", "Option B", "Option C", "Option D"],\<newline>'' @
     ''      "correctAnswer": 0\<newline>    }\<newline>  ]\<newline>}\<newline>\<newline>'' @
     ''Requirements:\<newline>- Exactly '' @ show_int count @ '' questions\<newline>'' @
     ''- Each question must have exactly 4 options\<newline>'' @
     ''- correctAnswer is the index (0-3) of the correct option\<newline>'' @
     ''- Questions should be clear, concise, and factually accurate\<newline>'' @
     ''- Difficulty should be moderate (suitable for general knowledge)\<newline>'' @
     ''- Avoid ambiguous or trick questions''\<close>

definition feedbackRequirements :: string where
  \<comment> \<open>The part of the feedback template after the last interpolation.\<close>
  \<open>feedbackRequirements =
     ''%).\<newline>\<newline>Return ONLY valid JSON in this exact format:\<newline>'' @
     ''{\<newline>  "message": "Your personalized feedback message here"\<newline>}\<newline>\<newline>'' @
     ''Requirements:\<newline>- Be encouraging and positive\<newline>'' @
     ''- Acknowledge their performance level\<newline>'' @
     ''- Provide 1-2 specific suggestions for improvement if score < 80%\<newline>'' @
     ''- Keep the message concise (2-3 sentences)\<newline>'' @
     ''- Use a friendly, conversational tone''\<close>

definition generateFeedbackPrompt :: "string \<Rightarrow> int \<Rightarrow> int \<Rightarrow> int \<Rightarrow> string" where
  "generateFeedbackPrompt topic score correctAnswers totalQuestions =
     ''Generate personalized feedback for a quiz taker who scored '' @
     show_int correctAnswers @ '' out of '' @ show_int totalQuestions @ '' \<newline>on a '' @
     topic @ '' quiz ('' @ show_int score @ feedbackRequirements"

subsection \<open>Effects\<close>

text \<open>
  The service is asynchronous but sequential: each \<open>await\<close> finishes before the next
  statement runs. An asynchronous operation is a function from the state of the outside
  world to its outcome and the next state. The world also keeps the trace of what the
  service did to it: the calls of the endpoint, the waits, and the warning about the
  number of questions (the other lines written to the console are not recorded).
  \<open>callGeminiAPI\<close> is the HTTP exchange with the endpoint; the service sees it as an
  operation of type \<open>Promise<string>\<close> from the prompt to the text of the reply, or a
  thrown error. The exchange is the parameter \<open>endpoint\<close>; a call of \<open>callGeminiAPI\<close>
  is one event of the trace.
\<close>

datatype event =
    Invoked
  | ApiCall string
  | Delay int
  | WarnCount int nat

record 's world =
  env :: 's
  trace :: "event list"

type_synonym ('s, 'e, 'a) async = "'s \<Rightarrow> ('e + 'a) \<times> 's"

type_synonym 's endpoint = "string \<Rightarrow> ('s, exn, string) async"

definition delay :: "int \<Rightarrow> 's world \<Rightarrow> 's world" where
  "delay ms w = w\<lparr>trace := trace w @ [Delay ms]\<rparr>"

definition console_warn :: "int \<Rightarrow> nat \<Rightarrow> 's world \<Rightarrow> 's world" where
  "console_warn expected got w = w\<lparr>trace := trace w @ [WarnCount expected got]\<rparr>"

definition callGeminiAPI :: "'s endpoint \<Rightarrow> string \<Rightarrow> ('s world, exn, string) async" where
  "callGeminiAPI endpoint prompt w =
     (case endpoint prompt (env w) of
        (r, s') \<Rightarrow> (r, \<lparr>env = s', trace = trace w @ [ApiCall prompt]\<rparr>))"

definition invoke :: "('s, 'e, 'a) async \<Rightarrow> ('s world, 'e, 'a) async" where
  \<comment> \<open>One invocation \<open>await fn()\<close> of an operation handed to the retry utility.\<close>
  "invoke fn w =
     (case fn (env w) of (r, s') \<Rightarrow> (r, \<lparr>env = s', trace = trace w @ [Invoked]\<rparr>))"

subsection \<open>Question generation\<close>

record APIError =
  message :: string
  code :: "string option"

datatype GenerateQuestionsRequest = GenerateQuestionsRequest string int
  \<comment> \<open>\<open>topic\<close>, \<open>count\<close>\<close>

datatype GenerateQuestionsResponse = GenerateQuestionsResponse "jsval list"
  \<comment> \<open>\<open>questions\<close>: the items of the parsed array, as they are\<close>

fun every :: "('a \<Rightarrow> exn + bool) \<Rightarrow> 'a list \<Rightarrow> exn + bool" where
  \<comment> \<open>\<open>Array.prototype.every\<close>: left to right, stops at the first \<open>false\<close>; a throwing
      callback ends it.\<close>
  "every f [] = Inr True"
| "every f (x # xs) =
     (case f x of
        Inl e \<Rightarrow> Inl e
      | Inr ok \<Rightarrow> if ok then every f xs else Inr False)"

definition questionsAttempt :: "'s endpoint \<Rightarrow> string \<Rightarrow> int \<Rightarrow> ('s world, exn, jsval list) async"
  where
  \<comment> \<open>The \<open>try\<close> block of \<open>generateQuestions\<close>: \<open>Inr\<close> is its \<open>return\<close>, \<open>Inl\<close> what
      reaches the \<open>catch\<close>.\<close>
  "questionsAttempt endpoint prompt count w =
     (case callGeminiAPI endpoint prompt w of
        (Inl e, w1) \<Rightarrow> (Inl e, w1)
      | (Inr aiResponse, w1) \<Rightarrow>
          (case extractJSON aiResponse of
             Inl e \<Rightarrow> (Inl e, w1)
           | Inr result \<Rightarrow>
               (case getProp result ''questions'' of
                  Inl e \<Rightarrow> (Inl e, w1)
                | Inr qs \<Rightarrow>
                    if \<not> truthy qs \<or> \<not> Array_isArray qs
                    then (Inl (Error ''Invalid response format from AI''), w1)
                    else (case every validateQuestion (array_items qs) of
                            Inl e \<Rightarrow> (Inl e, w1)
                          | Inr ok \<Rightarrow>
                              if \<not> ok
                              then (Inl (Error ''Invalid question format received''), w1)
                              else (Inr (array_items qs),
                                    if int (length (array_items qs)) \<noteq> count
                                    then console_warn count (length (array_items qs)) w1
                                    else w1)))))"

function generateQuestions_loop ::
  "'s endpoint \<Rightarrow> string \<Rightarrow> int \<Rightarrow> int \<Rightarrow> exn option \<Rightarrow> 's world
     \<Rightarrow> (APIError + GenerateQuestionsResponse) \<times> 's world"
  where
  \<comment> \<open>The \<open>for\<close> loop from the value \<open>attempt\<close> of its counter on, with \<open>lastError\<close>
      (\<open>None\<close> is \<open>null\<close>), and the statements after the loop.\<close>
  "generateQuestions_loop endpoint prompt count attempt lastError w =
     (if attempt < MAX_RETRIES
      then (case questionsAttempt endpoint prompt count w of
              (Inr questions, w1) \<Rightarrow> (Inr (GenerateQuestionsResponse questions), w1)
            | (Inl error, w1) \<Rightarrow>
                generateQuestions_loop endpoint prompt count (attempt + 1) (Some error)
                  (if attempt < MAX_RETRIES - 1
                   then delay (RETRY_DELAY * 2 ^ nat attempt) w1
                   else w1))
      else (Inl \<lparr>message = ''Failed to generate questions after '' @ show_int MAX_RETRIES @
                             '' attempts: '' @
                             (case lastError of
                                None \<Rightarrow> ''undefined''
                              | Some e \<Rightarrow> exn_message e),
                  code = Some ''GENERATION_FAILED''\<rparr>, w))"
  by pat_completeness auto
termination
  by (relation "measure (\<lambda>(endpoint, prompt, count, attempt, lastError, w).
                           nat (MAX_RETRIES - attempt))") auto

declare generateQuestions_loop.simps [simp del]

fun generateQuestions ::
  "'s endpoint \<Rightarrow> GenerateQuestionsRequest \<Rightarrow> ('s world, APIError, GenerateQuestionsResponse) async"
  where
  "generateQuestions endpoint (GenerateQuestionsRequest topic count) w =
     generateQuestions_loop endpoint (generateQuestionsPrompt topic count) count 0 None w"

subsection \<open>Feedback generation\<close>

datatype GenerateFeedbackRequest = GenerateFeedbackRequest string int int int
  \<comment> \<open>\<open>topic\<close>, \<open>score\<close>, \<open>totalQuestions\<close>, \<open>correctAnswers\<close>\<close>

datatype GenerateFeedbackResponse = GenerateFeedbackResponse string
  \<comment> \<open>\<open>message\<close>\<close>

fun generateFeedback ::
  "'s endpoint \<Rightarrow> GenerateFeedbackRequest \<Rightarrow> ('s world, exn, GenerateFeedbackResponse) async"
  where
  \<comment> \<open>The \<open>catch\<close> block throws the error it caught.\<close>
  "generateFeedback endpoint (GenerateFeedbackRequest topic score totalQuestions correctAnswers) w =
     (case callGeminiAPI endpoint
             (generateFeedbackPrompt topic score correctAnswers totalQuestions) w of
        (Inl e, w1) \<Rightarrow> (Inl e, w1)
      | (Inr aiResponse, w1) \<Rightarrow>
          (case extractJSON aiResponse of
             Inl e \<Rightarrow> (Inl e, w1)
           | Inr result \<Rightarrow>
               (case getProp result ''message'' of
                  Inl e \<Rightarrow> (Inl e, w1)
                | Inr m \<Rightarrow>
                    if \<not> truthy m \<or> typeof m \<noteq> ''string''
                    then (Inl (Error ''Invalid feedback format from AI''), w1)
                    else (Inr (GenerateFeedbackResponse (string_value m)), w1))))"

subsection \<open>The retry utility\<close>

function retryWithBackoff_loop ::
  "('s, 'e, 'a) async \<Rightarrow> int \<Rightarrow> int \<Rightarrow> int \<Rightarrow> 'e option \<Rightarrow> 's world
     \<Rightarrow> ('e option + 'a) \<times> 's world"
  where
  \<comment> \<open>The \<open>for\<close> loop from the value \<open>attempt\<close> of its counter on, and the \<open>throw\<close>
      after it. \<open>lastError\<close> is \<open>None\<close> while the variable is unassigned; thrown, that
      is the value \<open>undefined\<close>.\<close>
  "retryWithBackoff_loop fn maxRetries baseDelay attempt lastError w =
     (if attempt < maxRetries
      then (case invoke fn w of
              (Inr v, w1) \<Rightarrow> (Inr v, w1)
            | (Inl error, w1) \<Rightarrow>
                retryWithBackoff_loop fn maxRetries baseDelay (attempt + 1) (Some error)
                  (if attempt < maxRetries - 1
                   then delay (baseDelay * 2 ^ nat attempt) w1
                   else w1))
      else (Inl lastError, w))"
  by pat_completeness auto
termination
  by (relation "measure (\<lambda>(fn, maxRetries, baseDelay, attempt, lastError, w).
                           nat (maxRetries - attempt))") auto

declare retryWithBackoff_loop.simps [simp del]

definition retryWithBackoff ::
  "('s, 'e, 'a) async \<Rightarrow> int \<Rightarrow> int \<Rightarrow> ('s world, 'e option, 'a) async" where
  \<comment> \<open>The defaults of \<open>maxRetries\<close> and \<open>baseDelay\<close> are \<open>MAX_RETRIES\<close> and
      \<open>RETRY_DELAY\<close>; here both are always given.\<close>
  "retryWithBackoff fn maxRetries baseDelay w =
     retryWithBackoff_loop fn maxRetries baseDelay 0 None w"

section \<open>The quiz context\<close>

record UserAnswer =
  questionId :: string
  selectedOption :: jsnum
  isCorrect :: bool

record QuizResult =
  totalQuestions :: nat
  correctAnswers :: nat
  score :: jsnum
  answers :: "UserAnswer list"

text \<open>
  The state of the provider that the two operations below read and write. A state
  setter with an updater function applies it to the current value, so an operation is a
  function on the state.
\<close>

record QuizState =
  questions :: "jsval list"
  userAnswers :: "UserAnswer list"
  quizResult :: "QuizResult option"

fun findIndex :: "('a \<Rightarrow> bool) \<Rightarrow> 'a list \<Rightarrow> int" where
  \<comment> \<open>\<open>Array.prototype.findIndex\<close>: the first index that satisfies, or \<open>-1\<close>.\<close>
  "findIndex P [] = - 1"
| "findIndex P (x # xs) =
     (if P x then 0
      else (let i = findIndex P xs in if i < 0 then - 1 else i + 1))"

definition updateAnswers :: "string \<Rightarrow> jsnum \<Rightarrow> bool \<Rightarrow> UserAnswer list \<Rightarrow> UserAnswer list"
  where
  \<comment> \<open>The updater that \<open>answerQuestion\<close> hands to \<open>setUserAnswers\<close>.\<close>
  "updateAnswers qid selected correct currentAnswers =
     (let existingAnswerIndex = findIndex (\<lambda>a. questionId a = qid) currentAnswers
      in if 0 \<le> existingAnswerIndex
         then currentAnswers[nat existingAnswerIndex :=
                \<lparr>questionId = qid, selectedOption = selected, isCorrect = correct\<rparr>]
         else currentAnswers @
                [\<lparr>questionId = qid, selectedOption = selected, isCorrect = correct\<rparr>])"

definition answerQuestion :: "string \<Rightarrow> jsnum \<Rightarrow> jsnum \<Rightarrow> QuizState \<Rightarrow> QuizState" where
  "answerQuestion qid selected correctAnswer st =
     st\<lparr>userAnswers :=
          updateAnswers qid selected (strict_eq_num selected correctAnswer) (userAnswers st)\<rparr>"

definition finalizeQuiz :: "UserAnswer list \<Rightarrow> QuizState \<Rightarrow> QuizState" where
  "finalizeQuiz finalAnswers st =
     (let correct = length (filter isCorrect finalAnswers);
          total = length (questions st);
          sc = Math_round (js_mul (js_div (Num (of_nat correct)) (Num (of_nat total)))
                                  (Num 100))
      in st\<lparr>userAnswers := finalAnswers,
             quizResult := Some \<lparr>totalQuestions = total, correctAnswers = correct,
                                   score = sc, answers = finalAnswers\<rparr>\<rparr>)"

definition answerAll :: "(string \<times> jsnum \<times> jsnum) list \<Rightarrow> QuizState \<Rightarrow> QuizState" where
  \<comment> \<open>A sequence of calls \<open>answerQuestion(questionId, selectedOption, correctAnswer)\<close>.\<close>
  "answerAll ops st = fold (\<lambda>(qid, selected, correctAnswer). answerQuestion qid selected correctAnswer) ops st"

subsection \<open>The extraction as the specification words it\<close>

text \<open>
  The specification describes the span differently from the regular expression: from the
  first \<open>{\<close> to the \<open>}\<close> that closes it, counting nested braces. These definitions follow
  the specification; they are compared with \<open>extractJSON\<close> below.
\<close>

fun spec_close :: "nat \<Rightarrow> string \<Rightarrow> string option" where
  \<comment> \<open>The text up to the \<open>}\<close> that closes the open brace, \<open>depth\<close> inner braces being open.\<close>
  "spec_close depth [] = None"
| "spec_close depth (c # cs) =
     (if c = CHR ''}''
      then (if depth = 0 then Some [c] else map_option ((#) c) (spec_close (depth - 1) cs))
      else if c = CHR ''{'' then map_option ((#) c) (spec_close (Suc depth) cs)
      else map_option ((#) c) (spec_close depth cs))"

definition spec_balancedSpan :: "string \<Rightarrow> string option" where
  "spec_balancedSpan text =
     (case dropWhile (\<lambda>c. c \<noteq> CHR ''{'') text of
        [] \<Rightarrow> None
      | c # cs \<Rightarrow> map_option ((#) c) (spec_close 0 cs))"

definition spec_extractJSON :: "string \<Rightarrow> exn + jsval" where
  "spec_extractJSON text =
     (case spec_balancedSpan text of
        None \<Rightarrow> Inl (Error ''No JSON found in AI response'')
      | Some m \<Rightarrow> JSON_parse m)"

subsection \<open>Decimal numerals\<close>

definition decimal :: "string \<Rightarrow> int \<Rightarrow> bool" where
  \<comment> \<open>\<open>ds\<close> is the decimal numeral of the integer \<open>i\<close>, which is not negative: digits
      only, of value \<open>i\<close>, with no leading zero.\<close>
  "decimal ds i =
     (ds \<noteq> [] \<and> list_all is_digit ds \<and> digits_value ds = i \<and>
      (ds = ''0'' \<or> hd ds \<noteq> CHR ''0''))"

section \<open>Sample inputs\<close>

text \<open>
  Concrete endpoints, operations and replies, on which the theorems below are instantiated.
\<close>

definition flaky :: "(nat, string, nat) async" where
  "flaky s = (if s < 2 then (Inl ''unavailable'', Suc s) else (Inr (10 * s), Suc s))"

definition sample_reply :: string where
  \<open>sample_reply =
     ''Here you go: {"questions":[{"id":"q1","question":"2+2?",'' @
     ''"options":["1","2","3","4"],"correctAnswer":3}]} Enjoy!''\<close>

definition sample_question :: jsval where
  "sample_question =
     JObject [(''id'', JString ''q1''), (''question'', JString ''2+2?''),
              (''options'', JArray [JString ''1'', JString ''2'', JString ''3'', JString ''4'']),
              (''correctAnswer'', JNumber (Num 3))]"

definition failing_endpoint :: "nat endpoint" where
  "failing_endpoint prompt s = (Inl (Error (''Failed to fetch, call '' @ show_nat s)), Suc s)"

definition sample_endpoint :: "nat endpoint" where
  "sample_endpoint prompt s = (Inr sample_reply, Suc s)"

definition flaky_endpoint :: "nat endpoint" where
  "flaky_endpoint prompt s =
     (if s < 2 then (Inl (Error ''Gemini API error: 503 Service Unavailable''), Suc s)
      else (Inr sample_reply, Suc s))"

definition feedback_reply :: string where
  \<open>feedback_reply = ''Sure! {"message":"Well done, keep going."} thanks''\<close>

definition feedback_endpoint :: "nat endpoint" where
  "feedback_endpoint prompt s = (Inr feedback_reply, Suc s)"

definition sample_answers :: "UserAnswer list" where
  "sample_answers =
     [\<lparr>questionId = ''q1'', selectedOption = Num 3, isCorrect = True\<rparr>,
      \<lparr>questionId = ''q2'', selectedOption = Num 0, isCorrect = False\<rparr>,
      \<lparr>questionId = ''q3'', selectedOption = Num 1, isCorrect = True\<rparr>,
      \<lparr>questionId = ''q4'', selectedOption = Num 2, isCorrect = True\<rparr>,
      \<lparr>questionId = ''q5'', selectedOption = Num 2, isCorrect = False\<rparr>]"

definition sample_state :: QuizState where
  "sample_state =
     \<lparr>questions = replicate 5 sample_question, userAnswers = [], quizResult = None\<rparr>"

definition fractional_question :: jsval where
  "fractional_question =
     JObject [(''id'', JString ''q1''), (''question'', JString ''2+2?''),
              (''options'', JArray [JString ''1'', JString ''2'', JString ''3'', JString ''4'']),
              (''correctAnswer'', JNumber (Num (3 / 2)))]"

definition state_40 :: QuizState where
  "state_40 =
     \<lparr>questions = replicate 40 sample_question, userAnswers = [], quizResult = None\<rparr>"

definition answers_23_of_40 :: "UserAnswer list" where
  \<comment> \<open>One answer for each of 40 questions, the first 23 flagged correct.\<close>
  "answers_23_of_40 =
     map (\<lambda>i. \<lparr>questionId = ''q'' @ show_nat i, selectedOption = Num 0, isCorrect = (i < 23)\<rparr>)
       [0..<40]"

section \<open>Properties of the extraction\<close>

lemma longest_to_close_None: "longest_to_close cs = None \<longleftrightarrow> CHR ''}'' \<notin> set cs"
  by (induction cs) (auto split: option.splits)

lemma longest_to_close_Some:
  "longest_to_close cs = Some r \<Longrightarrow>
     \<exists>body post. r = body @ [CHR ''}''] \<and> cs = r @ post \<and> CHR ''}'' \<notin> set post"
proof (induction cs arbitrary: r)
  case Nil
  then show ?case by simp
next
  case (Cons c cs)
  show ?case
  proof (cases "longest_to_close cs")
    case None
    with Cons.prems have "c = CHR ''}''" "r = [c]"
      by (simp_all split: if_splits)
    moreover from None have "CHR ''}'' \<notin> set cs" by (simp add: longest_to_close_None)
    ultimately show ?thesis by (intro exI [of _ "[]"] exI [of _ cs]) simp
  next
    case (Some r')
    with Cons.prems have r: "r = c # r'" by simp
    from Cons.IH [OF Some] obtain body post where
      "r' = body @ [CHR ''}'']" "cs = r' @ post" "CHR ''}'' \<notin> set post" by blast
    with r show ?thesis by (intro exI [of _ "c # body"] exI [of _ post]) simp
  qed
qed

lemma longest_to_close_span:
  "CHR ''}'' \<notin> set post \<Longrightarrow>
     longest_to_close (body @ CHR ''}'' # post) = Some (body @ [CHR ''}''])"
  by (induction body) (simp_all add: longest_to_close_None [THEN iffD2])

lemma jsonMatch_skip:
  "CHR ''{'' \<notin> set pre \<Longrightarrow> jsonMatch (pre @ s) = jsonMatch s"
  by (induction pre) auto

lemma jsonMatch_span:
  assumes "CHR ''{'' \<notin> set pre" and "CHR ''}'' \<notin> set post"
  shows "jsonMatch (pre @ (CHR ''{'' # body @ [CHR ''}'']) @ post)
           = Some (CHR ''{'' # body @ [CHR ''}''])"
  using assms by (simp add: jsonMatch_skip longest_to_close_span)

lemma jsonMatch_Some:
  "jsonMatch str = Some m \<Longrightarrow>
     \<exists>pre body post. str = pre @ m @ post \<and> m = CHR ''{'' # body @ [CHR ''}''] \<and>
        CHR ''{'' \<notin> set pre \<and> CHR ''}'' \<notin> set post"
proof (induction str)
  case Nil
  then show ?case by simp
next
  case (Cons c cs)
  show ?case
  proof (cases "c = CHR ''{''")
    case True
    show ?thesis
    proof (cases "longest_to_close cs")
      case None
      then have no: "CHR ''}'' \<notin> set cs" by (simp add: longest_to_close_None)
      from None True Cons.prems have "jsonMatch cs = Some m" by simp
      from Cons.IH [OF this] no show ?thesis by auto
    next
      case (Some r)
      with True Cons.prems have m: "m = c # r" by simp
      from longest_to_close_Some [OF Some] obtain body post where
        "r = body @ [CHR ''}'']" "cs = r @ post" "CHR ''}'' \<notin> set post" by blast
      with m True show ?thesis
        by (intro exI [of _ "[]"] exI [of _ body] exI [of _ post]) simp
    qed
  next
    case False
    with Cons.prems have "jsonMatch cs = Some m" by simp
    from Cons.IH [OF this] obtain pre body post where
      "cs = pre @ m @ post" "m = CHR ''{'' # body @ [CHR ''}'']"
      "CHR ''{'' \<notin> set pre" "CHR ''}'' \<notin> set post" by blast
    with False show ?thesis
      by (intro exI [of _ "c # pre"] exI [of _ body] exI [of _ post]) simp
  qed
qed

lemma jsonMatch_iff:
  "jsonMatch str = Some m \<longleftrightarrow>
     (\<exists>pre body post. str = pre @ m @ post \<and> m = CHR ''{'' # body @ [CHR ''}''] \<and>
        CHR ''{'' \<notin> set pre \<and> CHR ''}'' \<notin> set post)"
proof
  assume "jsonMatch str = Some m"
  then show "\<exists>pre body post. str = pre @ m @ post \<and> m = CHR ''{'' # body @ [CHR ''}''] \<and>
        CHR ''{'' \<notin> set pre \<and> CHR ''}'' \<notin> set post"
    by (rule jsonMatch_Some)
next
  assume "\<exists>pre body post. str = pre @ m @ post \<and> m = CHR ''{'' # body @ [CHR ''}''] \<and>
        CHR ''{'' \<notin> set pre \<and> CHR ''}'' \<notin> set post"
  then obtain pre body post where
    "str = pre @ m @ post" "m = CHR ''{'' # body @ [CHR ''}'']"
    "CHR ''{'' \<notin> set pre" "CHR ''}'' \<notin> set post" by blast
  then show "jsonMatch str = Some m"
    using jsonMatch_span [of pre post body] by simp
qed

lemma jsonMatch_no_brace:
  "CHR ''{'' \<notin> set str \<or> CHR ''}'' \<notin> set str \<Longrightarrow> jsonMatch str = None"
proof (rule ccontr)
  assume a: "CHR ''{'' \<notin> set str \<or> CHR ''}'' \<notin> set str" and "jsonMatch str \<noteq> None"
  then obtain m where "jsonMatch str = Some m" by auto
  from jsonMatch_Some [OF this] a show False by auto
qed

lemma jsonMatch_None_iff:
  "jsonMatch str = None \<longleftrightarrow> CHR ''}'' \<notin> set (dropWhile (\<lambda>c. c \<noteq> CHR ''{'') str)"
proof -
  let ?pre = "takeWhile (\<lambda>c. c \<noteq> CHR ''{'') str"
  let ?s = "dropWhile (\<lambda>c. c \<noteq> CHR ''{'') str"
  have "CHR ''{'' \<notin> set ?pre" by (auto dest: set_takeWhileD)
  then have "jsonMatch (?pre @ ?s) = jsonMatch ?s" by (rule jsonMatch_skip)
  then have m: "jsonMatch str = jsonMatch ?s" by simp
  show ?thesis
  proof (cases ?s)
    case Nil
    show ?thesis unfolding m Nil by simp
  next
    case (Cons c cs)
    then have c: "c = CHR ''{''" using hd_dropWhile [of "\<lambda>c. c \<noteq> CHR ''{''" str] by force
    show ?thesis
    proof (cases "CHR ''}'' \<in> set cs")
      case True
      then obtain r where "longest_to_close cs = Some r"
        using longest_to_close_None [of cs] by auto
      with c True show ?thesis unfolding m Cons by simp
    next
      case False
      then have "longest_to_close cs = None" "jsonMatch cs = None"
        by (simp_all add: longest_to_close_None jsonMatch_no_brace)
      with c False show ?thesis unfolding m Cons by simp
    qed
  qed
qed

lemma extract_greeting:
  \<open>extractJSON ''Sure! {"message":"hi"} thanks'' = Inr (JObject [(''message'', JString ''hi'')])\<close>
  by code_simp

text \<open>
  C1, as the specification words it, fails: when the reply holds a second brace pair
  after the object, the regular expression takes the text up to the last \<open>}\<close>, which
  does not parse, while the span up to the matching \<open>}\<close> is the object.
\<close>

theorem extractJSON_not_balanced_counterexample:
  \<open>extractJSON ''{"message":"hi"} or {"message":"bye"}''
     = Inl (SyntaxError ''Unexpected token in JSON'') \<and>
   spec_extractJSON ''{"message":"hi"} or {"message":"bye"}''
     = Inr (JObject [(''message'', JString ''hi'')])\<close>
  by code_simp

text \<open>
  C1, amended. \<open>extractJSON\<close> takes the span from the first \<open>{\<close> of the reply to the
  last \<open>}\<close> of the reply and returns what \<open>JSON.parse\<close> makes of it, a thrown
  \<open>SyntaxError\<close> included. When no \<open>}\<close> follows the first \<open>{\<close>, and so when the reply has
  no braces, it throws \<open>No JSON found in AI response\<close>. On the reply
  \<open>Sure! {"message":"hi"} thanks\<close> it returns the object with the one member \<open>message\<close>.
\<close>

theorem extractJSON_first_to_last_brace:
  \<open>(jsonMatch reply = Some m \<longleftrightarrow>
      (\<exists>pre body post. reply = pre @ m @ post \<and> m = CHR ''{'' # body @ [CHR ''}''] \<and>
         CHR ''{'' \<notin> set pre \<and> CHR ''}'' \<notin> set post)) \<and>
   (jsonMatch reply = None \<longleftrightarrow>
      CHR ''}'' \<notin> set (dropWhile (\<lambda>c. c \<noteq> CHR ''{'') reply)) \<and>
   (jsonMatch reply = Some m \<longrightarrow> extractJSON reply = JSON_parse m) \<and>
   (jsonMatch reply = None \<longrightarrow> extractJSON reply = Inl (Error ''No JSON found in AI response'')) \<and>
   (CHR ''{'' \<notin> set reply \<or> CHR ''}'' \<notin> set reply \<longrightarrow>
      extractJSON reply = Inl (Error ''No JSON found in AI response'')) \<and>
   extractJSON ''Sure! {"message":"hi"} thanks'' = Inr (JObject [(''message'', JString ''hi'')])\<close>
proof (intro conjI impI)
  show "jsonMatch reply = Some m \<longleftrightarrow>
      (\<exists>pre body post. reply = pre @ m @ post \<and> m = CHR ''{'' # body @ [CHR ''}''] \<and>
         CHR ''{'' \<notin> set pre \<and> CHR ''}'' \<notin> set post)"
    by (rule jsonMatch_iff)
next
  show "jsonMatch reply = None \<longleftrightarrow>
      CHR ''}'' \<notin> set (dropWhile (\<lambda>c. c \<noteq> CHR ''{'') reply)"
    by (rule jsonMatch_None_iff)
next
  assume "jsonMatch reply = Some m"
  then show "extractJSON reply = JSON_parse m" by (simp add: extractJSON_def)
next
  assume "jsonMatch reply = None"
  then show "extractJSON reply = Inl (Error ''No JSON found in AI response'')"
    by (simp add: extractJSON_def)
next
  assume "CHR ''{'' \<notin> set reply \<or> CHR ''}'' \<notin> set reply"
  then have "jsonMatch reply = None" by (rule jsonMatch_no_brace)
  then show "extractJSON reply = Inl (Error ''No JSON found in AI response'')"
    by (simp add: extractJSON_def)
next
  show \<open>extractJSON ''Sure! {"message":"hi"} thanks''
          = Inr (JObject [(''message'', JString ''hi'')])\<close>
    by (rule extract_greeting)
qed

theorem extractJSON_first_to_last_brace_witness:
  \<open>extractJSON ''I cannot answer that.'' = Inl (Error ''No JSON found in AI response'') \<and>
   jsonMatch ''a {"x": {"y": 1}} b } c'' = Some ''{"x": {"y": 1}} b }'' \<and>
   extractJSON ''a {"x": {"y": 1}} b } c'' = JSON_parse ''{"x": {"y": 1}} b }''\<close>
proof -
  have A: "extractJSON ''I cannot answer that.'' = Inl (Error ''No JSON found in AI response'')"
    using extractJSON_first_to_last_brace [of "''I cannot answer that.''"] by simp
  have \<open>''a {"x": {"y": 1}} b } c'' = ''a '' @ ''{"x": {"y": 1}} b }'' @ '' c'' \<and>
        ''{"x": {"y": 1}} b }'' = CHR ''{'' # ''"x": {"y": 1}} b '' @ [CHR ''}''] \<and>
        CHR ''{'' \<notin> set ''a '' \<and> CHR ''}'' \<notin> set '' c''\<close>
    by simp
  then have B: \<open>jsonMatch ''a {"x": {"y": 1}} b } c'' = Some ''{"x": {"y": 1}} b }''\<close>
    using extractJSON_first_to_last_brace
      [of \<open>''a {"x": {"y": 1}} b } c''\<close> \<open>''{"x": {"y": 1}} b }''\<close>]
    by blast
  then have C: \<open>extractJSON ''a {"x": {"y": 1}} b } c'' = JSON_parse ''{"x": {"y": 1}} b }''\<close>
    using extractJSON_first_to_last_brace
      [of \<open>''a {"x": {"y": 1}} b } c''\<close> \<open>''{"x": {"y": 1}} b }''\<close>]
    by blast
  from A B C show ?thesis by simp
qed

section \<open>Properties of the validation\<close>

lemma validateQuestion_nullish:
  "nullish q \<Longrightarrow> \<exists>e. validateQuestion q = Inl e"
  by (simp add: validateQuestion_def getProp_def)

lemma validateQuestion_iff:
  "validateQuestion q = Inr True \<longleftrightarrow>
     \<not> nullish q \<and>
     (\<exists>s. field q ''id'' = JString s) \<and>
     (\<exists>s. field q ''question'' = JString s) \<and>
     (\<exists>opts. field q ''options'' = JArray opts \<and> length opts = 4 \<and>
             (\<forall>opt\<in>set opts. \<exists>s. opt = JString s)) \<and>
     (\<exists>n. field q ''correctAnswer'' = JNumber n \<and> js_le (Num 0) n \<and> js_le n (Num 3))"
proof -
  have str: "\<And>v. typeof v = ''string'' \<longleftrightarrow> (\<exists>s. v = JString s)"
    by (case_tac v) simp_all
  have num: "\<And>v. typeof v = ''number'' \<longleftrightarrow> (\<exists>n. v = JNumber n)"
    by (case_tac v) simp_all
  have arr: "\<And>v. Array_isArray v \<longleftrightarrow> (\<exists>xs. v = JArray xs)"
    by (case_tac v) simp_all
  show ?thesis
    by (auto simp: validateQuestion_def getProp_def str num arr js_ge_def list_all_iff)
qed

text \<open>
  C2. The validator does not ask \<open>correctAnswer\<close> to be an integer: a question whose
  \<open>correctAnswer\<close> is 1.5, as \<open>JSON.parse\<close> delivers it, is accepted, although 1.5 is
  not an index of an option.
\<close>

theorem validateQuestion_accepts_fraction:
  \<open>JSON_parse (''{"id":"q1","question":"2+2?","options":["1","2","3","4"],'' @
               ''"correctAnswer":1.5}'') = Inr fractional_question \<and>
   validateQuestion fractional_question = Inr True \<and>
   field fractional_question ''correctAnswer'' = JNumber (Num (3 / 2))\<close>
  by code_simp

lemma validateQuestion_examples:
  "validateQuestion (JObject [(''id'', JString ''q1''), (''question'', JString ''2+2?''),
       (''options'', JArray [JString ''1'', JString ''2'', JString ''3'', JString ''4''])])
     = Inr False"
  "validateQuestion (JObject [(''id'', JString ''q1''), (''question'', JString ''2+2?''),
       (''options'', JArray [JString ''1'', JString ''2'', JString ''3'']),
       (''correctAnswer'', JNumber (Num 2))])
     = Inr False"
  "validateQuestion (JObject [(''id'', JString ''q1''), (''question'', JString ''2+2?''),
       (''options'', JArray [JString ''1'', JString ''2'', JString ''3'', JString ''4'']),
       (''correctAnswer'', JNumber (Num 4))])
     = Inr False"
  "validateQuestion (JObject [(''id'', JString ''q1''), (''question'', JString ''2+2?''),
       (''options'', JArray [JString ''1'', JString ''2'', JString ''3'', JString ''4'']),
       (''correctAnswer'', JNumber (Num 3))])
     = Inr True"
  by (simp_all add: validateQuestion_def getProp_def js_ge_def)

section \<open>Properties of the retry utility\<close>


lemma retry_loop_done:
  "\<not> attempt < maxRetries \<Longrightarrow>
     retryWithBackoff_loop fn maxRetries baseDelay attempt lastError w = (Inl lastError, w)"
  by (subst retryWithBackoff_loop.simps) simp

lemma retry_loop_ok:
  "attempt < maxRetries \<Longrightarrow> invoke fn w = (Inr v, w1) \<Longrightarrow>
     retryWithBackoff_loop fn maxRetries baseDelay attempt lastError w = (Inr v, w1)"
  by (subst retryWithBackoff_loop.simps) simp

lemma retry_loop_fail:
  "attempt < maxRetries \<Longrightarrow> invoke fn w = (Inl e, w1) \<Longrightarrow>
     retryWithBackoff_loop fn maxRetries baseDelay attempt lastError w =
       retryWithBackoff_loop fn maxRetries baseDelay (attempt + 1) (Some e)
         (if attempt < maxRetries - 1 then delay (baseDelay * 2 ^ nat attempt) w1 else w1)"
  by (subst retryWithBackoff_loop.simps) simp

lemma invoke_eq:
  "fn (env w) = (r, s') \<Longrightarrow> invoke fn w = (r, \<lparr>env = s', trace = trace w @ [Invoked]\<rparr>)"
  by (simp add: invoke_def)

lemma retry_loop_success_origin:
  "retryWithBackoff_loop fn maxRetries baseDelay attempt lastError w = (Inr v, w') \<Longrightarrow>
     \<exists>s evs. fn s = (Inr v, env w') \<and> trace w' = trace w @ evs @ [Invoked]"
proof (induction fn maxRetries baseDelay attempt lastError w
        rule: retryWithBackoff_loop.induct)
  case (1 fn maxRetries baseDelay attempt lastError w)
  show ?case
  proof (cases "attempt < maxRetries")
    case False
    with "1.prems" show ?thesis by (simp add: retry_loop_done)
  next
    case True
    obtain r s1 where f: "fn (env w) = (r, s1)" by (cases "fn (env w)")
    let ?w1 = "\<lparr>env = s1, trace = trace w @ [Invoked]\<rparr>"
    have inv: "invoke fn w = (r, ?w1)" using f by (rule invoke_eq)
    show ?thesis
    proof (cases r)
      case (Inr v')
      with True inv "1.prems" have "v' = v" "w' = ?w1"
        by (simp_all add: retry_loop_ok)
      with f Inr show ?thesis by (intro exI [of _ "env w"] exI [of _ "[]"]) simp
    next
      case (Inl e)
      let ?w2 = "if attempt < maxRetries - 1
                 then delay (baseDelay * 2 ^ nat attempt) ?w1 else ?w1"
      from True inv Inl "1.prems"
      have "retryWithBackoff_loop fn maxRetries baseDelay (attempt + 1) (Some e) ?w2 = (Inr v, w')"
        by (simp add: retry_loop_fail)
      with "1.IH" [OF True inv [unfolded Inl, symmetric] refl] 
      obtain s evs where "fn s = (Inr v, env w')" "trace w' = trace ?w2 @ evs @ [Invoked]"
        by blast
      then show ?thesis
        by (intro exI [of _ s]) (auto simp: delay_def)
    qed
  qed
qed

text \<open>
  C10. With \<open>maxRetries \<le> 0\<close> the retry utility never invokes the operation (the world is
  left as it was) and throws the value of its unassigned variable, \<open>undefined\<close>. Whenever
  the utility returns a value, that value is the result of a successful invocation of the
  operation, and that invocation is the last thing the utility did.
\<close>

theorem retryWithBackoff_no_attempts:
  "(maxRetries \<le> 0 \<longrightarrow> retryWithBackoff fn maxRetries baseDelay w = (Inl None, w)) \<and>
   (retryWithBackoff fn maxRetries baseDelay w = (Inr v, w') \<longrightarrow>
      0 < maxRetries \<and>
      (\<exists>s evs. fn s = (Inr v, env w') \<and> trace w' = trace w @ evs @ [Invoked]))"
proof (intro conjI impI)
  assume "maxRetries \<le> 0"
  then show "retryWithBackoff fn maxRetries baseDelay w = (Inl None, w)"
    by (simp add: retryWithBackoff_def retry_loop_done)
next
  assume r: "retryWithBackoff fn maxRetries baseDelay w = (Inr v, w')"
  show "0 < maxRetries"
  proof (rule ccontr)
    assume "\<not> 0 < maxRetries"
    with r show False by (simp add: retryWithBackoff_def retry_loop_done)
  qed
next
  assume "retryWithBackoff fn maxRetries baseDelay w = (Inr v, w')"
  then show "\<exists>s evs. fn s = (Inr v, env w') \<and> trace w' = trace w @ evs @ [Invoked]"
    unfolding retryWithBackoff_def by (rule retry_loop_success_origin)
qed

theorem retryWithBackoff_no_attempts_witness:
  "retryWithBackoff (\<lambda>s::nat. (Inl ''down'' :: string + nat, Suc s)) 0 1000
       \<lparr>env = 0, trace = []\<rparr> = (Inl None, \<lparr>env = 0, trace = []\<rparr>) \<and>
   retryWithBackoff (\<lambda>s::nat. (Inr (7 * s) :: string + nat, Suc s)) 3 1000
       \<lparr>env = 5, trace = []\<rparr> = (Inr 35, \<lparr>env = 6, trace = [Invoked]\<rparr>) \<and>
   (\<exists>s evs. (\<lambda>s::nat. (Inr (7 * s) :: string + nat, Suc s)) s
               = (Inr 35, env \<lparr>env = 6 :: nat, trace = [Invoked]\<rparr>) \<and>
            trace \<lparr>env = 6 :: nat, trace = [Invoked]\<rparr>
               = trace \<lparr>env = 5 :: nat, trace = []\<rparr> @ evs @ [Invoked])"
proof -
  let ?down = "\<lambda>s::nat. (Inl ''down'' :: string + nat, Suc s)"
  let ?up = "\<lambda>s::nat. (Inr (7 * s) :: string + nat, Suc s)"
  have a: "retryWithBackoff ?down 0 1000 \<lparr>env = 0, trace = []\<rparr>
             = (Inl None, \<lparr>env = 0, trace = []\<rparr>)"
    using retryWithBackoff_no_attempts [of 0 ?down 1000 "\<lparr>env = 0, trace = []\<rparr>"]
    by simp
  have b: "retryWithBackoff ?up 3 1000 \<lparr>env = 5, trace = []\<rparr>
             = (Inr 35, \<lparr>env = 6, trace = [Invoked]\<rparr>)"
    by (simp add: retryWithBackoff_def retry_loop_ok invoke_def)
  from a b retryWithBackoff_no_attempts [of 3 ?up 1000 "\<lparr>env = 5, trace = []\<rparr>" 35
                                             "\<lparr>env = 6, trace = [Invoked]\<rparr>"]
  show ?thesis by blast
qed

section \<open>Properties of question generation\<close>

lemma questions_loop_done:
  "\<not> attempt < MAX_RETRIES \<Longrightarrow>
     generateQuestions_loop ep p c attempt lastError w =
       (Inl \<lparr>message = ''Failed to generate questions after '' @ show_int MAX_RETRIES @
                          '' attempts: '' @
                          (case lastError of None \<Rightarrow> ''undefined'' | Some e \<Rightarrow> exn_message e),
               code = Some ''GENERATION_FAILED''\<rparr>, w)"
  by (subst generateQuestions_loop.simps) simp

lemma questions_loop_ok:
  "attempt < MAX_RETRIES \<Longrightarrow> questionsAttempt ep p c w = (Inr qs, w1) \<Longrightarrow>
     generateQuestions_loop ep p c attempt lastError w = (Inr (GenerateQuestionsResponse qs), w1)"
  by (subst generateQuestions_loop.simps) simp

lemma questions_loop_fail:
  "attempt < MAX_RETRIES \<Longrightarrow> questionsAttempt ep p c w = (Inl e, w1) \<Longrightarrow>
     generateQuestions_loop ep p c attempt lastError w =
       generateQuestions_loop ep p c (attempt + 1) (Some e)
         (if attempt < MAX_RETRIES - 1 then delay (RETRY_DELAY * 2 ^ nat attempt) w1 else w1)"
  by (subst generateQuestions_loop.simps) simp

lemma questionsAttempt_world:
  "questionsAttempt ep p c w = (r, w') \<Longrightarrow>
     env w' = snd (ep p (env w)) \<and>
     trace w' = trace w @ [ApiCall p] @
       (case r of
          Inl e \<Rightarrow> []
        | Inr qs \<Rightarrow> if int (length qs) \<noteq> c then [WarnCount c (length qs)] else [])"
  by (auto simp: questionsAttempt_def callGeminiAPI_def console_warn_def
           split: prod.splits sum.splits if_splits)

lemma show_int_MAX_RETRIES: "show_int MAX_RETRIES = ''3''"
  by code_simp

lemma retry_fail_fail_ok:
  assumes "fn (env w) = (Inl e1, s1)" and "fn s1 = (Inl e2, s2)" and "fn s2 = (Inr v, s3)"
  shows "retryWithBackoff fn 3 1000 w =
           (Inr v, \<lparr>env = s3,
                     trace = trace w @ [Invoked, Delay 1000, Invoked, Delay 2000, Invoked]\<rparr>)"
proof -
  let ?w1 = "\<lparr>env = s1, trace = trace w @ [Invoked]\<rparr>"
  let ?w1d = "\<lparr>env = s1, trace = trace w @ [Invoked, Delay 1000]\<rparr>"
  let ?w2 = "\<lparr>env = s2, trace = trace w @ [Invoked, Delay 1000, Invoked]\<rparr>"
  let ?w2d = "\<lparr>env = s2, trace = trace w @ [Invoked, Delay 1000, Invoked, Delay 2000]\<rparr>"
  let ?w3 = "\<lparr>env = s3, trace = trace w @ [Invoked, Delay 1000, Invoked, Delay 2000, Invoked]\<rparr>"
  have i1: "invoke fn w = (Inl e1, ?w1)" using assms(1) by (rule invoke_eq)
  have i2: "invoke fn ?w1d = (Inl e2, ?w2)" using assms(2) by (simp add: invoke_def)
  have i3: "invoke fn ?w2d = (Inr v, ?w3)" using assms(3) by (simp add: invoke_def)
  have "retryWithBackoff fn 3 1000 w = retryWithBackoff_loop fn 3 1000 1 (Some e1) ?w1d"
    unfolding retryWithBackoff_def
    by (subst retry_loop_fail [OF _ i1]) (simp_all add: delay_def)
  also have "\<dots> = retryWithBackoff_loop fn 3 1000 2 (Some e2) ?w2d"
    by (subst retry_loop_fail [OF _ i2]) (simp_all add: delay_def)
  also have "\<dots> = (Inr v, ?w3)"
    by (rule retry_loop_ok [OF _ i3]) simp
  finally show ?thesis .
qed

lemma questions_fail_fail_ok:
  assumes "questionsAttempt ep p c w0 = (Inl e1, w1)"
    and "questionsAttempt ep p c (delay 1000 w1) = (Inl e2, w2)"
    and "questionsAttempt ep p c (delay 2000 w2) = (Inr qs, w3)"
  shows "generateQuestions_loop ep p c 0 None w0 = (Inr (GenerateQuestionsResponse qs), w3)"
proof -
  have "generateQuestions_loop ep p c 0 None w0 =
          generateQuestions_loop ep p c 1 (Some e1) (delay 1000 w1)"
    by (subst questions_loop_fail [OF _ assms(1)])
       (simp_all add: MAX_RETRIES_def RETRY_DELAY_def)
  also have "\<dots> = generateQuestions_loop ep p c 2 (Some e2) (delay 2000 w2)"
    by (subst questions_loop_fail [OF _ assms(2)])
       (simp_all add: MAX_RETRIES_def RETRY_DELAY_def)
  also have "\<dots> = (Inr (GenerateQuestionsResponse qs), w3)"
    by (rule questions_loop_ok [OF _ assms(3)]) (simp add: MAX_RETRIES_def)
  finally show ?thesis .
qed

lemma questions_fail_fail_ok_trace:
  assumes "questionsAttempt ep p c w0 = (Inl e1, w1)"
    and "questionsAttempt ep p c (delay 1000 w1) = (Inl e2, w2)"
    and "questionsAttempt ep p c (delay 2000 w2) = (Inr qs, w3)"
  shows "trace w3 = trace w0 @ [ApiCall p, Delay 1000, ApiCall p, Delay 2000, ApiCall p] @
           (if int (length qs) \<noteq> c then [WarnCount c (length qs)] else [])"
  using questionsAttempt_world [OF assms(1)] questionsAttempt_world [OF assms(2)]
    questionsAttempt_world [OF assms(3)]
  by (simp add: delay_def)

text \<open>
  C3. With base delay 1000 and at most 3 attempts, an operation that fails on its first two
  invocations and succeeds on the third is invoked three times, with a wait of 1000 after
  the first failure and of 2000 after the second, and nothing after the third invocation:
  its result is returned. This holds for the retry utility and for the loop of
  \<open>generateQuestions\<close>, whose configured limits are these. For \<open>generateQuestions\<close> the
  operation is one run of its \<open>try\<close> block; a wait leaves the world as it was but for the
  trace.
\<close>

theorem retry_two_failures_then_success:
  "(fn (env w) = (Inl e1, s1) \<and> fn s1 = (Inl e2, s2) \<and> fn s2 = (Inr v, s3) \<longrightarrow>
      retryWithBackoff fn 3 1000 w =
        (Inr v, \<lparr>env = s3,
                  trace = trace w @ [Invoked, Delay 1000, Invoked, Delay 2000, Invoked]\<rparr>)) \<and>
   MAX_RETRIES = 3 \<and> RETRY_DELAY = 1000 \<and>
   (questionsAttempt ep (generateQuestionsPrompt topic count) count w0 = (Inl x1, w1) \<and>
    questionsAttempt ep (generateQuestionsPrompt topic count) count (delay 1000 w1)
      = (Inl x2, w2) \<and>
    questionsAttempt ep (generateQuestionsPrompt topic count) count (delay 2000 w2)
      = (Inr qs, w3) \<longrightarrow>
      generateQuestions ep (GenerateQuestionsRequest topic count) w0
        = (Inr (GenerateQuestionsResponse qs), w3) \<and>
      trace w3 = trace w0 @
        [ApiCall (generateQuestionsPrompt topic count), Delay 1000,
         ApiCall (generateQuestionsPrompt topic count), Delay 2000,
         ApiCall (generateQuestionsPrompt topic count)] @
        (if int (length qs) \<noteq> count then [WarnCount count (length qs)] else []))"
  using retry_fail_fail_ok [of fn w e1 s1 e2 s2 v s3]
    questions_fail_fail_ok [of ep "generateQuestionsPrompt topic count" count w0 x1 w1 x2 w2 qs w3]
    questions_fail_fail_ok_trace
      [of ep "generateQuestionsPrompt topic count" count w0 x1 w1 x2 w2 qs w3]
  by (simp add: MAX_RETRIES_def RETRY_DELAY_def)

lemma sample_reply_extract:
  "extractJSON sample_reply = Inr (JObject [(''questions'', JArray [sample_question])])"
  by code_simp

lemma sample_question_valid: "validateQuestion sample_question = Inr True"
  by code_simp

theorem retry_two_failures_then_success_witness:
  "retryWithBackoff flaky 3 1000 \<lparr>env = 0, trace = []\<rparr> =
     (Inr 20, \<lparr>env = 3, trace = [Invoked, Delay 1000, Invoked, Delay 2000, Invoked]\<rparr>) \<and>
   generateQuestions flaky_endpoint (GenerateQuestionsRequest ''Science'' 1)
       \<lparr>env = 0, trace = []\<rparr> =
     (Inr (GenerateQuestionsResponse [sample_question]),
      \<lparr>env = 3,
        trace = [ApiCall (generateQuestionsPrompt ''Science'' 1), Delay 1000,
                 ApiCall (generateQuestionsPrompt ''Science'' 1), Delay 2000,
                 ApiCall (generateQuestionsPrompt ''Science'' 1)]\<rparr>)"
proof -
  let ?p = "generateQuestionsPrompt ''Science'' 1"
  let ?e = "Error ''Gemini API error: 503 Service Unavailable''"
  let ?w1 = "\<lparr>env = 1 :: nat, trace = [ApiCall ?p]\<rparr>"
  let ?w2 = "\<lparr>env = 2 :: nat, trace = [ApiCall ?p, Delay 1000, ApiCall ?p]\<rparr>"
  let ?w3 = "\<lparr>env = 3 :: nat,
               trace = [ApiCall ?p, Delay 1000, ApiCall ?p, Delay 2000, ApiCall ?p]\<rparr>"
  have f: "flaky (env \<lparr>env = 0, trace = []\<rparr>) = (Inl ''unavailable'', 1)"
    "flaky 1 = (Inl ''unavailable'', 2)" "flaky 2 = (Inr 20, 3)"
    by (simp_all add: flaky_def)
  have a1: "questionsAttempt flaky_endpoint ?p 1 \<lparr>env = 0, trace = []\<rparr> = (Inl ?e, ?w1)"
    by (simp add: questionsAttempt_def callGeminiAPI_def flaky_endpoint_def)
  have a2: "questionsAttempt flaky_endpoint ?p 1 (delay 1000 ?w1) = (Inl ?e, ?w2)"
    by (simp add: questionsAttempt_def callGeminiAPI_def flaky_endpoint_def delay_def)
  have a3: "questionsAttempt flaky_endpoint ?p 1 (delay 2000 ?w2)
              = (Inr [sample_question], ?w3)"
    by (simp add: questionsAttempt_def callGeminiAPI_def flaky_endpoint_def delay_def
          sample_reply_extract getProp_def sample_question_valid)
  note t = retry_two_failures_then_success
      [of flaky "\<lparr>env = 0, trace = []\<rparr>" "''unavailable''" 1 "''unavailable''" 2 20 3
          flaky_endpoint "''Science''" 1 "\<lparr>env = 0, trace = []\<rparr>" ?e ?w1 ?e ?w2
          "[sample_question]" ?w3]
  from t f have A: "retryWithBackoff flaky 3 1000 \<lparr>env = 0, trace = []\<rparr> =
     (Inr 20, \<lparr>env = 3, trace = [Invoked, Delay 1000, Invoked, Delay 2000, Invoked]\<rparr>)"
    by (simp add: MAX_RETRIES_def RETRY_DELAY_def)
  from t a1 a2 a3 have B: "generateQuestions flaky_endpoint (GenerateQuestionsRequest ''Science'' 1)
       \<lparr>env = 0, trace = []\<rparr> = (Inr (GenerateQuestionsResponse [sample_question]), ?w3)"
    by (simp add: MAX_RETRIES_def RETRY_DELAY_def)
  from A B show ?thesis by simp
qed

lemma questions_fail_fail_fail:
  assumes "questionsAttempt ep p c w0 = (Inl e1, w1)"
    and "questionsAttempt ep p c (delay 1000 w1) = (Inl e2, w2)"
    and "questionsAttempt ep p c (delay 2000 w2) = (Inl e3, w3)"
  shows "generateQuestions_loop ep p c 0 None w0 =
           (Inl \<lparr>message = ''Failed to generate questions after 3 attempts: '' @ exn_message e3,
                   code = Some ''GENERATION_FAILED''\<rparr>, w3)"
proof -
  have "generateQuestions_loop ep p c 0 None w0 =
          generateQuestions_loop ep p c 1 (Some e1) (delay 1000 w1)"
    by (subst questions_loop_fail [OF _ assms(1)])
       (simp_all add: MAX_RETRIES_def RETRY_DELAY_def)
  also have "\<dots> = generateQuestions_loop ep p c 2 (Some e2) (delay 2000 w2)"
    by (subst questions_loop_fail [OF _ assms(2)])
       (simp_all add: MAX_RETRIES_def RETRY_DELAY_def)
  also have "\<dots> = generateQuestions_loop ep p c 3 (Some e3) w3"
    by (subst questions_loop_fail [OF _ assms(3)]) (simp_all add: MAX_RETRIES_def)
  also have "\<dots> = (Inl \<lparr>message = ''Failed to generate questions after 3 attempts: '' @
                                    exn_message e3,
                          code = Some ''GENERATION_FAILED''\<rparr>, w3)"
    by (subst questions_loop_done) (simp_all add: show_int_MAX_RETRIES, simp add: MAX_RETRIES_def)
  finally show ?thesis .
qed

lemma questions_fail_fail_fail_trace:
  assumes "questionsAttempt ep p c w0 = (Inl e1, w1)"
    and "questionsAttempt ep p c (delay 1000 w1) = (Inl e2, w2)"
    and "questionsAttempt ep p c (delay 2000 w2) = (Inl e3, w3)"
  shows "trace w3 = trace w0 @ [ApiCall p, Delay 1000, ApiCall p, Delay 2000, ApiCall p]"
    and "trace (delay 2000 w2) = trace w0 @ [ApiCall p, Delay 1000, ApiCall p, Delay 2000]"
  using questionsAttempt_world [OF assms(1)] questionsAttempt_world [OF assms(2)]
    questionsAttempt_world [OF assms(3)]
  by (simp_all add: delay_def)

text \<open>
  C4. When every run of the \<open>try\<close> block fails, \<open>generateQuestions\<close> calls the endpoint
  exactly \<open>MAX_RETRIES = 3\<close> times, waits 1000 and 2000 between the calls, and then
  throws an \<open>APIError\<close> whose code is \<open>GENERATION_FAILED\<close> and whose message ends with the
  message of the third failure. The world it leaves is the one the third attempt left:
  nothing happens after exhaustion.
\<close>

theorem generateQuestions_exhausted:
  "MAX_RETRIES = 3 \<and>
   (questionsAttempt ep (generateQuestionsPrompt topic count) count w0 = (Inl e1, w1) \<and>
    questionsAttempt ep (generateQuestionsPrompt topic count) count (delay 1000 w1)
      = (Inl e2, w2) \<and>
    questionsAttempt ep (generateQuestionsPrompt topic count) count (delay 2000 w2)
      = (Inl e3, w3) \<longrightarrow>
      generateQuestions ep (GenerateQuestionsRequest topic count) w0 =
        (Inl \<lparr>message = ''Failed to generate questions after 3 attempts: '' @ exn_message e3,
                code = Some ''GENERATION_FAILED''\<rparr>, w3) \<and>
      trace w3 = trace w0 @
        [ApiCall (generateQuestionsPrompt topic count), Delay 1000,
         ApiCall (generateQuestionsPrompt topic count), Delay 2000,
         ApiCall (generateQuestionsPrompt topic count)]) \<and>
   ((\<forall>w. \<exists>e w'. questionsAttempt ep (generateQuestionsPrompt topic count) count w
                    = (Inl e, w')) \<longrightarrow>
      (\<exists>e wb w'.
         trace wb = trace w0 @
           [ApiCall (generateQuestionsPrompt topic count), Delay 1000,
            ApiCall (generateQuestionsPrompt topic count), Delay 2000] \<and>
         questionsAttempt ep (generateQuestionsPrompt topic count) count wb = (Inl e, w') \<and>
         generateQuestions ep (GenerateQuestionsRequest topic count) w0 =
           (Inl \<lparr>message = ''Failed to generate questions after 3 attempts: '' @ exn_message e,
                   code = Some ''GENERATION_FAILED''\<rparr>, w') \<and>
         trace w' = trace w0 @
           [ApiCall (generateQuestionsPrompt topic count), Delay 1000,
            ApiCall (generateQuestionsPrompt topic count), Delay 2000,
            ApiCall (generateQuestionsPrompt topic count)]))"
proof (intro conjI impI)
  show "MAX_RETRIES = 3" by (simp add: MAX_RETRIES_def)
next
  let ?p = "generateQuestionsPrompt topic count"
  assume h: "questionsAttempt ep ?p count w0 = (Inl e1, w1) \<and>
    questionsAttempt ep ?p count (delay 1000 w1) = (Inl e2, w2) \<and>
    questionsAttempt ep ?p count (delay 2000 w2) = (Inl e3, w3)"
  then have b: "questionsAttempt ep ?p count w0 = (Inl e1, w1)"
    "questionsAttempt ep ?p count (delay 1000 w1) = (Inl e2, w2)"
    "questionsAttempt ep ?p count (delay 2000 w2) = (Inl e3, w3)"
    by simp_all
  from b show "generateQuestions ep (GenerateQuestionsRequest topic count) w0 =
        (Inl \<lparr>message = ''Failed to generate questions after 3 attempts: '' @ exn_message e3,
                code = Some ''GENERATION_FAILED''\<rparr>, w3)"
    by (simp add: questions_fail_fail_fail)
  from b show "trace w3 = trace w0 @ [ApiCall ?p, Delay 1000, ApiCall ?p, Delay 2000, ApiCall ?p]"
    by (rule questions_fail_fail_fail_trace(1))
next
  let ?p = "generateQuestionsPrompt topic count"
  assume all: "\<forall>w. \<exists>e w'. questionsAttempt ep ?p count w = (Inl e, w')"
  from all obtain x1 v1 where a1: "questionsAttempt ep ?p count w0 = (Inl x1, v1)" by blast
  from all obtain x2 v2 where a2: "questionsAttempt ep ?p count (delay 1000 v1) = (Inl x2, v2)"
    by blast
  from all obtain x3 v3 where a3: "questionsAttempt ep ?p count (delay 2000 v2) = (Inl x3, v3)"
    by blast
  have "trace (delay 2000 v2) = trace w0 @ [ApiCall ?p, Delay 1000, ApiCall ?p, Delay 2000]"
    using a1 a2 a3 by (rule questions_fail_fail_fail_trace(2))
  moreover have "generateQuestions ep (GenerateQuestionsRequest topic count) w0 =
        (Inl \<lparr>message = ''Failed to generate questions after 3 attempts: '' @ exn_message x3,
                code = Some ''GENERATION_FAILED''\<rparr>, v3)"
    using a1 a2 a3 by (simp add: questions_fail_fail_fail)
  moreover have "trace v3 = trace w0 @ [ApiCall ?p, Delay 1000, ApiCall ?p, Delay 2000, ApiCall ?p]"
    using a1 a2 a3 by (rule questions_fail_fail_fail_trace(1))
  ultimately show "\<exists>e wb w'.
         trace wb = trace w0 @ [ApiCall ?p, Delay 1000, ApiCall ?p, Delay 2000] \<and>
         questionsAttempt ep ?p count wb = (Inl e, w') \<and>
         generateQuestions ep (GenerateQuestionsRequest topic count) w0 =
           (Inl \<lparr>message = ''Failed to generate questions after 3 attempts: '' @ exn_message e,
                   code = Some ''GENERATION_FAILED''\<rparr>, w') \<and>
         trace w' = trace w0 @ [ApiCall ?p, Delay 1000, ApiCall ?p, Delay 2000, ApiCall ?p]"
    using a3 by blast
qed

lemma failing_endpoint_attempt:
  "questionsAttempt failing_endpoint p c w =
     (Inl (Error (''Failed to fetch, call '' @ show_nat (env w))),
      \<lparr>env = Suc (env w), trace = trace w @ [ApiCall p]\<rparr>)"
  by (simp add: questionsAttempt_def callGeminiAPI_def failing_endpoint_def)

theorem generateQuestions_exhausted_witness:
  "generateQuestions failing_endpoint (GenerateQuestionsRequest ''History'' 5)
       \<lparr>env = 0, trace = []\<rparr> =
     (Inl \<lparr>message = ''Failed to generate questions after 3 attempts: Failed to fetch, call 2'',
             code = Some ''GENERATION_FAILED''\<rparr>,
      \<lparr>env = 3,
        trace = [ApiCall (generateQuestionsPrompt ''History'' 5), Delay 1000,
                 ApiCall (generateQuestionsPrompt ''History'' 5), Delay 2000,
                 ApiCall (generateQuestionsPrompt ''History'' 5)]\<rparr>) \<and>
   (\<forall>w::nat world. \<exists>e w'.
      questionsAttempt failing_endpoint (generateQuestionsPrompt ''History'' 5) 5 w = (Inl e, w'))"
proof -
  let ?p = "generateQuestionsPrompt ''History'' 5"
  let ?w0 = "\<lparr>env = 0 :: nat, trace = []\<rparr>"
  let ?w1 = "\<lparr>env = 1 :: nat, trace = [ApiCall ?p]\<rparr>"
  let ?w2 = "\<lparr>env = 2 :: nat, trace = [ApiCall ?p, Delay 1000, ApiCall ?p]\<rparr>"
  let ?w3 = "\<lparr>env = 3 :: nat,
               trace = [ApiCall ?p, Delay 1000, ApiCall ?p, Delay 2000, ApiCall ?p]\<rparr>"
  have n: "show_nat 0 = ''0''" "show_nat (Suc 0) = ''1''" "show_nat 2 = ''2''"
    by code_simp+
  have a1: "questionsAttempt failing_endpoint ?p 5 ?w0
              = (Inl (Error ''Failed to fetch, call 0''), ?w1)"
    by (simp add: failing_endpoint_attempt n)
  have a2: "questionsAttempt failing_endpoint ?p 5 (delay 1000 ?w1)
              = (Inl (Error ''Failed to fetch, call 1''), ?w2)"
    by (simp add: failing_endpoint_attempt delay_def n)
  have a3: "questionsAttempt failing_endpoint ?p 5 (delay 2000 ?w2)
              = (Inl (Error ''Failed to fetch, call 2''), ?w3)"
    by (simp add: failing_endpoint_attempt delay_def n)
  have "generateQuestions failing_endpoint (GenerateQuestionsRequest ''History'' 5) ?w0 =
     (Inl \<lparr>message = ''Failed to generate questions after 3 attempts: Failed to fetch, call 2'',
             code = Some ''GENERATION_FAILED''\<rparr>, ?w3)"
    using generateQuestions_exhausted
      [of failing_endpoint "''History''" 5 ?w0 "Error ''Failed to fetch, call 0''" ?w1
          "Error ''Failed to fetch, call 1''" ?w2 "Error ''Failed to fetch, call 2''" ?w3]
      a1 a2 a3
    by simp
  moreover have "\<forall>w::nat world. \<exists>e w'. questionsAttempt failing_endpoint ?p 5 w = (Inl e, w')"
    by (simp add: failing_endpoint_attempt)
  ultimately show ?thesis by simp
qed

lemma every_all:
  "\<forall>x\<in>set xs. f x = Inr True \<Longrightarrow> every f xs = Inr True"
  by (induction xs) simp_all

lemma questionsAttempt_valid:
  assumes "ep p (env w) = (Inr reply, s')"
    and "extractJSON reply = Inr payload"
    and "getProp payload ''questions'' = Inr (JArray qs)"
    and "\<forall>q\<in>set qs. validateQuestion q = Inr True"
  shows "questionsAttempt ep p c w =
           (Inr qs, \<lparr>env = s',
                      trace = trace w @ [ApiCall p] @
                        (if int (length qs) \<noteq> c then [WarnCount c (length qs)] else [])\<rparr>)"
  using assms(1-3) every_all [OF assms(4)]
  by (simp add: questionsAttempt_def callGeminiAPI_def console_warn_def)

text \<open>
  C5. When the reply of the endpoint yields a payload whose \<open>questions\<close> is an array and
  every item of the array passes \<open>validateQuestion\<close>, the attempt that received it returns
  exactly those items, whatever the requested count: a length other than \<open>count\<close> only adds
  a warning to the trace. No wait and no further call follows. This holds at every pass of
  the loop, and so for \<open>generateQuestions\<close> when the first reply is such a reply.
\<close>

theorem generateQuestions_length_mismatch_accepted:
  "(attempt < MAX_RETRIES \<and> ep p (env w) = (Inr text, s') \<and> extractJSON text = Inr result \<and>
    getProp result ''questions'' = Inr (JArray qs) \<and>
    (\<forall>q\<in>set qs. validateQuestion q = Inr True) \<longrightarrow>
      generateQuestions_loop ep p count attempt lastError w =
        (Inr (GenerateQuestionsResponse qs),
         \<lparr>env = s',
           trace = trace w @ [ApiCall p] @
             (if int (length qs) \<noteq> count then [WarnCount count (length qs)] else [])\<rparr>)) \<and>
   (ep (generateQuestionsPrompt topic count) (env w) = (Inr text, s') \<and>
    extractJSON text = Inr result \<and>
    getProp result ''questions'' = Inr (JArray qs) \<and>
    (\<forall>q\<in>set qs. validateQuestion q = Inr True) \<longrightarrow>
      generateQuestions ep (GenerateQuestionsRequest topic count) w =
        (Inr (GenerateQuestionsResponse qs),
         \<lparr>env = s',
           trace = trace w @ [ApiCall (generateQuestionsPrompt topic count)] @
             (if int (length qs) \<noteq> count then [WarnCount count (length qs)] else [])\<rparr>))"
proof (intro conjI impI)
  assume h: "attempt < MAX_RETRIES \<and> ep p (env w) = (Inr text, s') \<and>
    extractJSON text = Inr result \<and> getProp result ''questions'' = Inr (JArray qs) \<and>
    (\<forall>q\<in>set qs. validateQuestion q = Inr True)"
  then have "questionsAttempt ep p count w =
      (Inr qs, \<lparr>env = s', trace = trace w @ [ApiCall p] @
         (if int (length qs) \<noteq> count then [WarnCount count (length qs)] else [])\<rparr>)"
    by (intro questionsAttempt_valid [where reply = "text" and payload = result]) simp_all
  with h show "generateQuestions_loop ep p count attempt lastError w =
        (Inr (GenerateQuestionsResponse qs),
         \<lparr>env = s',
           trace = trace w @ [ApiCall p] @
             (if int (length qs) \<noteq> count then [WarnCount count (length qs)] else [])\<rparr>)"
    by (intro questions_loop_ok) simp_all
next
  let ?p = "generateQuestionsPrompt topic count"
  assume h: "ep ?p (env w) = (Inr text, s') \<and>
    extractJSON text = Inr result \<and> getProp result ''questions'' = Inr (JArray qs) \<and>
    (\<forall>q\<in>set qs. validateQuestion q = Inr True)"
  then have "questionsAttempt ep ?p count w =
      (Inr qs, \<lparr>env = s', trace = trace w @ [ApiCall ?p] @
         (if int (length qs) \<noteq> count then [WarnCount count (length qs)] else [])\<rparr>)"
    by (intro questionsAttempt_valid [where reply = "text" and payload = result]) simp_all
  then have "generateQuestions_loop ep ?p count 0 None w =
        (Inr (GenerateQuestionsResponse qs),
         \<lparr>env = s',
           trace = trace w @ [ApiCall ?p] @
             (if int (length qs) \<noteq> count then [WarnCount count (length qs)] else [])\<rparr>)"
    by (intro questions_loop_ok) (simp_all add: MAX_RETRIES_def)
  then show "generateQuestions ep (GenerateQuestionsRequest topic count) w =
        (Inr (GenerateQuestionsResponse qs),
         \<lparr>env = s',
           trace = trace w @ [ApiCall ?p] @
             (if int (length qs) \<noteq> count then [WarnCount count (length qs)] else [])\<rparr>)"
    by simp
qed

theorem generateQuestions_length_mismatch_accepted_witness:
  "generateQuestions sample_endpoint (GenerateQuestionsRequest ''Science'' 5)
       \<lparr>env = 0, trace = []\<rparr> =
     (Inr (GenerateQuestionsResponse [sample_question]),
      \<lparr>env = 1, trace = [ApiCall (generateQuestionsPrompt ''Science'' 5), WarnCount 5 1]\<rparr>) \<and>
   generateQuestions_loop sample_endpoint ''prompt'' 1 2 (Some (Error ''earlier''))
       \<lparr>env = 7, trace = []\<rparr> =
     (Inr (GenerateQuestionsResponse [sample_question]),
      \<lparr>env = 8, trace = [ApiCall ''prompt'']\<rparr>)"
proof -
  have v: "\<forall>q\<in>set [sample_question]. validateQuestion q = Inr True"
    by (simp add: sample_question_valid)
  have g: "getProp (JObject [(''questions'', JArray [sample_question])]) ''questions''
             = Inr (JArray [sample_question])"
    by (simp add: getProp_def)
  have A: "generateQuestions sample_endpoint (GenerateQuestionsRequest ''Science'' 5)
       \<lparr>env = 0, trace = []\<rparr> =
     (Inr (GenerateQuestionsResponse [sample_question]),
      \<lparr>env = 1, trace = [ApiCall (generateQuestionsPrompt ''Science'' 5), WarnCount 5 1]\<rparr>)"
    using generateQuestions_length_mismatch_accepted
      [of 0 sample_endpoint "''prompt''" "\<lparr>env = 0, trace = []\<rparr>" sample_reply 1
          "JObject [(''questions'', JArray [sample_question])]" "[sample_question]"
          5 None "''Science''"]
      v g sample_reply_extract
    by (simp add: sample_endpoint_def)
  have B: "generateQuestions_loop sample_endpoint ''prompt'' 1 2 (Some (Error ''earlier''))
       \<lparr>env = 7, trace = []\<rparr> =
     (Inr (GenerateQuestionsResponse [sample_question]),
      \<lparr>env = 8, trace = [ApiCall ''prompt'']\<rparr>)"
    using generateQuestions_length_mismatch_accepted
      [of 2 sample_endpoint "''prompt''" "\<lparr>env = 7, trace = []\<rparr>" sample_reply 8
          "JObject [(''questions'', JArray [sample_question])]" "[sample_question]"
          1 "Some (Error ''earlier'')" "''Science''"]
      v g sample_reply_extract
    by (simp add: sample_endpoint_def MAX_RETRIES_def)
  from A B show ?thesis by simp
qed

section \<open>Properties of feedback generation\<close>

lemma feedback_reply_extract:
  "extractJSON feedback_reply = Inr (JObject [(''message'', JString ''Well done, keep going.'')])"
  by code_simp

lemma generateFeedback_world:
  "snd (generateFeedback ep (GenerateFeedbackRequest topic pct n k) w) =
     \<lparr>env = snd (ep (generateFeedbackPrompt topic pct k n) (env w)),
       trace = trace w @ [ApiCall (generateFeedbackPrompt topic pct k n)]\<rparr>"
  by (simp add: callGeminiAPI_def split: prod.splits sum.splits)

lemma generateFeedback_result:
  "fst (generateFeedback ep (GenerateFeedbackRequest topic pct n k) w) =
     (case fst (ep (generateFeedbackPrompt topic pct k n) (env w)) of
        Inl e \<Rightarrow> Inl e
      | Inr reply \<Rightarrow>
          (case extractJSON reply of
             Inl e \<Rightarrow> Inl e
           | Inr payload \<Rightarrow>
               (case getProp payload ''message'' of
                  Inl e \<Rightarrow> Inl e
                | Inr m \<Rightarrow>
                    (case m of
                       JString s \<Rightarrow>
                         if s = [] then Inl (Error ''Invalid feedback format from AI'')
                         else Inr (GenerateFeedbackResponse s)
                     | _ \<Rightarrow> Inl (Error ''Invalid feedback format from AI'')))))"
  by (simp add: callGeminiAPI_def split: prod.splits sum.splits jsval.splits)

text \<open>
  C6. \<open>generateFeedback\<close> calls the endpoint exactly once, with the feedback prompt, and
  never waits: the trace grows by that one call whatever the outcome. A thrown error of
  the call, of the extraction or of the read of \<open>message\<close> reaches the caller as it is; a
  \<open>message\<close> that is not a non-empty string throws the format error; otherwise the
  string \<open>message\<close> of the payload is the feedback returned.
\<close>

theorem generateFeedback_single_call:
  "snd (generateFeedback ep (GenerateFeedbackRequest topic pct n k) w) =
     \<lparr>env = snd (ep (generateFeedbackPrompt topic pct k n) (env w)),
       trace = trace w @ [ApiCall (generateFeedbackPrompt topic pct k n)]\<rparr> \<and>
   (\<forall>e. fst (ep (generateFeedbackPrompt topic pct k n) (env w)) = Inl e \<longrightarrow>
      fst (generateFeedback ep (GenerateFeedbackRequest topic pct n k) w) = Inl e) \<and>
   (\<forall>reply. fst (ep (generateFeedbackPrompt topic pct k n) (env w)) = Inr reply \<longrightarrow>
      (\<forall>e. extractJSON reply = Inl e \<longrightarrow>
         fst (generateFeedback ep (GenerateFeedbackRequest topic pct n k) w)
           = Inl e) \<and>
      (\<forall>payload. extractJSON reply = Inr payload \<longrightarrow>
         (\<forall>e. getProp payload ''message'' = Inl e \<longrightarrow>
            fst (generateFeedback ep (GenerateFeedbackRequest topic pct n k) w)
              = Inl e) \<and>
         (\<forall>m. getProp payload ''message'' = Inr m \<and> (\<forall>s. m = JString s \<longrightarrow> s = []) \<longrightarrow>
            fst (generateFeedback ep (GenerateFeedbackRequest topic pct n k) w)
              = Inl (Error ''Invalid feedback format from AI'')) \<and>
         (\<forall>s. getProp payload ''message'' = Inr (JString s) \<and> s \<noteq> [] \<longrightarrow>
            fst (generateFeedback ep (GenerateFeedbackRequest topic pct n k) w)
              = Inr (GenerateFeedbackResponse s))))"
proof (intro conjI allI impI)
  show "snd (generateFeedback ep (GenerateFeedbackRequest topic pct n k) w) =
     \<lparr>env = snd (ep (generateFeedbackPrompt topic pct k n) (env w)),
       trace = trace w @ [ApiCall (generateFeedbackPrompt topic pct k n)]\<rparr>"
    by (rule generateFeedback_world)
qed (auto simp: generateFeedback_result simp del: generateFeedback.simps split: jsval.splits)

theorem generateFeedback_single_call_witness:
  "generateFeedback feedback_endpoint (GenerateFeedbackRequest ''Science'' 60 5 3)
       \<lparr>env = 0, trace = []\<rparr> =
     (Inr (GenerateFeedbackResponse ''Well done, keep going.''),
      \<lparr>env = 1, trace = [ApiCall (generateFeedbackPrompt ''Science'' 60 3 5)]\<rparr>) \<and>
   generateFeedback failing_endpoint (GenerateFeedbackRequest ''Science'' 60 5 3)
       \<lparr>env = 0, trace = []\<rparr> =
     (Inl (Error ''Failed to fetch, call 0''),
      \<lparr>env = 1, trace = [ApiCall (generateFeedbackPrompt ''Science'' 60 3 5)]\<rparr>)"
proof -
  let ?req = "GenerateFeedbackRequest ''Science'' 60 5 3"
  let ?w0 = "\<lparr>env = 0 :: nat, trace = []\<rparr>"
  have n: "show_nat 0 = ''0''" by code_simp
  have g: "getProp (JObject [(''message'', JString ''Well done, keep going.'')]) ''message''
             = Inr (JString ''Well done, keep going.'')"
    by (simp add: getProp_def)
  note ok = generateFeedback_single_call [of feedback_endpoint "''Science''" 60 5 3 ?w0]
  note ko = generateFeedback_single_call [of failing_endpoint "''Science''" 60 5 3 ?w0]
  have A: "fst (generateFeedback feedback_endpoint ?req ?w0)
             = Inr (GenerateFeedbackResponse ''Well done, keep going.'')"
    using ok g feedback_reply_extract by (simp add: feedback_endpoint_def)
  have A': "snd (generateFeedback feedback_endpoint ?req ?w0)
              = \<lparr>env = 1, trace = [ApiCall (generateFeedbackPrompt ''Science'' 60 3 5)]\<rparr>"
    using ok by (simp add: feedback_endpoint_def)
  have B: "fst (generateFeedback failing_endpoint ?req ?w0) = Inl (Error ''Failed to fetch, call 0'')"
    using ko by (simp add: failing_endpoint_def n)
  have B': "snd (generateFeedback failing_endpoint ?req ?w0)
              = \<lparr>env = 1, trace = [ApiCall (generateFeedbackPrompt ''Science'' 60 3 5)]\<rparr>"
    using ko by (simp add: failing_endpoint_def)
  from A A' B B' show ?thesis by (simp add: prod_eq_iff)
qed

section \<open>Properties of the feedback prompt\<close>

lemma digits_value_snoc: "digits_value (ds @ [c]) = 10 * digits_value ds + digit_val c"
  by (simp add: digits_value_def)

lemma digit_char:
  assumes "d < 10"
  shows "is_digit (char_of (48 + d))" and "digit_val (char_of (48 + d)) = int d"
    and "char_of (48 + d) = CHR ''0'' \<longleftrightarrow> d = 0"
proof -
  have v: "(of_char (char_of (48 + d)) :: nat) = 48 + d" using assms by simp
  show "is_digit (char_of (48 + d))" using assms by (simp add: is_digit_def v)
  have "(of_char (char_of (48 + d)) :: int) = int (of_char (char_of (48 + d)))"
    by (simp only: of_nat_of_char)
  then show "digit_val (char_of (48 + d)) = int d" using assms by (simp add: digit_val_def)
  have "char_of (48 + d) = CHR ''0'' \<longleftrightarrow> (of_char (char_of (48 + d)) :: nat) = of_char CHR ''0''"
    by (simp only: of_char_eq_iff)
  then show "char_of (48 + d) = CHR ''0'' \<longleftrightarrow> d = 0" unfolding v by simp
qed

lemma show_nat_decimal: "decimal (show_nat n) (int n)"
proof (induction n rule: show_nat.induct)
  case (1 n)
  show ?case
  proof (cases "n < 10")
    case True
    then have "show_nat n = [char_of (48 + n)]" by (simp add: show_nat.simps [of n])
    with digit_char [OF True] show ?thesis
      by (auto simp: decimal_def digits_value_def)
  next
    case False
    then have s: "show_nat n = show_nat (n div 10) @ [char_of (48 + n mod 10)]"
      by (simp add: show_nat.simps [of n])
    have m: "n mod 10 < 10" by simp
    from "1.IH" [OF False] have ih: "decimal (show_nat (n div 10)) (int (n div 10))" .
    from False have pos: "0 < n div 10" by simp
    from ih pos have nz: "show_nat (n div 10) \<noteq> ''0''"
      by (auto simp: decimal_def digits_value_def digit_val_def)
    with ih have h: "hd (show_nat (n div 10)) \<noteq> CHR ''0''" "show_nat (n div 10) \<noteq> []"
      by (auto simp: decimal_def)
    have "digits_value (show_nat n) = 10 * int (n div 10) + int (n mod 10)"
      using ih digit_char(2) [OF m] by (simp add: s digits_value_snoc decimal_def)
    also have "\<dots> = int n" by presburger
    finally have v: "digits_value (show_nat n) = int n" .
    from ih digit_char(1) [OF m] h v show ?thesis
      by (simp add: decimal_def s)
  qed
qed

lemma show_int_decimal: "0 \<le> i \<Longrightarrow> decimal (show_int i) i"
  using show_nat_decimal [of "nat i"] by (simp add: show_int_def)

lemma occurrence_separated:
  assumes "c \<notin> set w" and "xs @ c # ys = pre @ w @ post"
  obtains (before) r where "xs = pre @ w @ r" and "post = r @ c # ys"
        | (after) r where "ys = r @ w @ post" and "pre = xs @ c # r"
proof -
  from assms have "(\<exists>r. xs = pre @ w @ r \<and> post = r @ c # ys) \<or>
         (\<exists>r. ys = r @ w @ post \<and> pre = xs @ c # r)"
    by (auto simp: append_eq_append_conv2 append_eq_Cons_conv Cons_eq_append_conv)
  with that show ?thesis by blast
qed

lemma occurrence_after:
  assumes "c \<notin> set w" and "\<not> sublist w xs" and "xs @ c # ys = pre @ w @ post"
  obtains r where "ys = r @ w @ post" and "pre = xs @ c # r"
  using assms(1,3)
proof (cases rule: occurrence_separated)
  case (before r)
  then have "sublist w xs" unfolding sublist_def by blast
  with assms(2) show ?thesis by simp
next
  case (after r)
  then show ?thesis by (rule that)
qed

lemma digits_no_word:
  assumes "list_all is_digit ds" and "w \<noteq> []" and "\<not> is_digit (hd w)"
  shows "\<not> sublist w ds"
proof
  assume "sublist w ds"
  then have "set w \<subseteq> set ds" by (rule set_mono_sublist)
  moreover from assms(2) have "hd w \<in> set w" by simp
  ultimately have "is_digit (hd w)" using assms(1) by (auto simp: list_all_iff)
  with assms(3) show False by simp
qed

lemma no_improvement_in_pieces:
  \<open>\<not> sublist ''improvement'' ''Generate personalized feedback for a quiz taker who scored''\<close>
  \<open>\<not> sublist ''improvement'' ''out of''\<close>
  \<open>\<not> sublist ''improvement'' ''\<newline>on a''\<close>
  \<open>\<not> sublist ''improvement'' ''quiz ''\<close>
  \<open>\<not> sublist ''improvement''
     ('').\<newline>\<newline>Return ONLY valid JSON in this exact format:\<newline>'' @
      ''{\<newline>  "message": "Your personalized feedback message here"\<newline>}\<newline>\<newline>'' @
      ''Requirements:\<newline>- Be encouraging and positive\<newline>'' @
      ''- Acknowledge their performance level\<newline>'' @
      ''- Provide 1-2 specific suggestions for'')\<close>
  \<open>\<not> sublist ''improvement''
     (''if score < 80%\<newline>- Keep the message concise (2-3 sentences)\<newline>'' @
      ''- Use a friendly, conversational tone'')\<close>
  by code_simp+

lemma improvement_only_conditional:
  assumes dk: "list_all is_digit (show_int k)" and dn: "list_all is_digit (show_int n)"
    and dp: "list_all is_digit (show_int pct)"
    and occ: "generateFeedbackPrompt topic pct k n = pre @ ''improvement'' @ post"
  shows "(\<exists>t1 t2. topic = t1 @ ''improvement'' @ t2 \<and>
            pre = ''Generate personalized feedback for a quiz taker who scored '' @
                  show_int k @ '' out of '' @ show_int n @ '' \<newline>on a '' @ t1) \<or>
         prefix '' if score < 80%'' post"
proof -
  let ?W = "''improvement''"
  let ?T2 = "''if score < 80%\<newline>- Keep the message concise (2-3 sentences)\<newline>'' @
             ''- Use a friendly, conversational tone''"
  let ?T1 = \<open>'').\<newline>\<newline>Return ONLY valid JSON in this exact format:\<newline>'' @
      ''{\<newline>  "message": "Your personalized feedback message here"\<newline>}\<newline>\<newline>'' @
      ''Requirements:\<newline>- Be encouraging and positive\<newline>'' @
      ''- Acknowledge their performance level\<newline>'' @
      ''- Provide 1-2 specific suggestions for''\<close>
  let ?H1 = "''Generate personalized feedback for a quiz taker who scored''"
  let ?R9 = "?W @ CHR '' '' # ?T2"
  let ?R8 = "?T1 @ CHR '' '' # ?R9"
  let ?R7 = "show_int pct @ CHR ''%'' # ?R8"
  let ?R6 = "''quiz '' @ CHR ''('' # ?R7"
  let ?R5 = "topic @ CHR '' '' # ?R6"
  let ?R4 = "''\<newline>on a'' @ CHR '' '' # ?R5"
  let ?R3 = "show_int n @ CHR '' '' # ?R4"
  let ?R2 = "''out of'' @ CHR '' '' # ?R3"
  let ?R1 = "show_int k @ CHR '' '' # ?R2"
  have sep: "CHR '' '' \<notin> set ?W" "CHR ''('' \<notin> set ?W" "CHR ''%'' \<notin> set ?W" by simp_all
  have nd: "?W \<noteq> []" "\<not> is_digit (hd ?W)" by (simp_all add: is_digit_def)
  note nk = digits_no_word [OF dk nd]
  note nn = digits_no_word [OF dn nd]
  note np = digits_no_word [OF dp nd]
  note lit = no_improvement_in_pieces
  have "generateFeedbackPrompt topic pct k n = ?H1 @ CHR '' '' # ?R1"
    by (simp add: generateFeedbackPrompt_def feedbackRequirements_def)
  then have e0: "?H1 @ CHR '' '' # ?R1 = pre @ ?W @ post"
    using occ by (rule trans [OF sym])
  obtain r1 where e1: "?R1 = r1 @ ?W @ post" and r1: "pre = ?H1 @ CHR '' '' # r1"
    by (rule occurrence_after [OF sep(1) lit(1) e0])
  obtain r2 where e2: "?R2 = r2 @ ?W @ post" and r2: "r1 = show_int k @ CHR '' '' # r2"
    by (rule occurrence_after [OF sep(1) nk e1])
  obtain r3 where e3: "?R3 = r3 @ ?W @ post" and r3: "r2 = ''out of'' @ CHR '' '' # r3"
    by (rule occurrence_after [OF sep(1) lit(2) e2])
  obtain r4 where e4: "?R4 = r4 @ ?W @ post" and r4: "r3 = show_int n @ CHR '' '' # r4"
    by (rule occurrence_after [OF sep(1) nn e3])
  obtain r5 where e5: "?R5 = r5 @ ?W @ post" and r5: "r4 = ''\<newline>on a'' @ CHR '' '' # r5"
    by (rule occurrence_after [OF sep(1) lit(3) e4])
  have p5: "pre = ''Generate personalized feedback for a quiz taker who scored '' @
                  show_int k @ '' out of '' @ show_int n @ '' \<newline>on a '' @ r5"
    unfolding r1 r2 r3 r4 r5 by simp
  from sep(1) e5 show ?thesis
  proof (cases rule: occurrence_separated)
    case (before r)
    from before(1) p5 have "topic = r5 @ ?W @ r \<and>
            pre = ''Generate personalized feedback for a quiz taker who scored '' @
                  show_int k @ '' out of '' @ show_int n @ '' \<newline>on a '' @ r5"
      by (rule conjI)
    then show ?thesis by (intro disjI1 exI)
  next
    case (after r6)
    note e6 = after(1)
    obtain r7 where e7: "?R7 = r7 @ ?W @ post"
      by (rule occurrence_after [OF sep(2) lit(4) e6])
    obtain r8 where e8: "?R8 = r8 @ ?W @ post"
      by (rule occurrence_after [OF sep(3) np e7])
    obtain r9 where e9: "?R9 = r9 @ ?W @ post"
      by (rule occurrence_after [OF sep(1) lit(5) e8])
    from sep(1) e9 show ?thesis
    proof (cases rule: occurrence_separated)
      case (before r)
      from arg_cong [OF before(1), of length]
      have "r = []" by simp
      with before(2) have "post = '' if score < 80%'' @
          (''\<newline>- Keep the message concise (2-3 sentences)\<newline>'' @
           ''- Use a friendly, conversational tone'')"
        by simp
      then have "prefix '' if score < 80%'' post" by (simp only: prefixI)
      then show ?thesis by (rule disjI2)
    next
      case (after r)
      have "sublist ?W (r @ ?W @ post)" by (rule sublist_appendI)
      with after(1) have "sublist ?W ?T2" by (simp only:)
      with lit(6) show ?thesis by (rule notE)
    qed
  qed
qed

text \<open>
  C7. For a score from 0 to 100 and counts \<open>0 \<le> correct \<le> total\<close>, the prompt is the
  template with the three numbers in decimal. It states the score as \<open>(score%)\<close> and asks
  for improvement in one place only, the requirement
  \<open>Provide 1-2 specific suggestions for improvement if score < 80%\<close>: every occurrence of
  the word \<open>improvement\<close> in the prompt either lies inside the topic or is followed by
  \<open>if score < 80%\<close>. The condition of that requirement, read on the score that the prompt
  states, holds exactly when the score is below 80: so a prompt for a score below 80
  requests a suggestion for improvement and a prompt for a score of 80 or more does not.
\<close>

theorem generateFeedbackPrompt_improvement_clause:
  assumes "0 \<le> pct" and "pct \<le> 100" and "0 \<le> k" and "k \<le> n"
  shows
  \<open>decimal (show_int pct) pct \<and> decimal (show_int k) k \<and> decimal (show_int n) n \<and>
   generateFeedbackPrompt topic pct k n =
     ''Generate personalized feedback for a quiz taker who scored '' @ show_int k @
     '' out of '' @ show_int n @ '' \<newline>on a '' @ topic @ '' quiz ('' @ show_int pct @
     ''%).\<newline>\<newline>Return ONLY valid JSON in this exact format:\<newline>'' @
     ''{\<newline>  "message": "Your personalized feedback message here"\<newline>}\<newline>\<newline>'' @
     ''Requirements:\<newline>- Be encouraging and positive\<newline>'' @
     ''- Acknowledge their performance level\<newline>'' @
     ''- Provide 1-2 specific suggestions for improvement if score < '' @ ''80'' @ ''%'' @
     ''\<newline>- Keep the message concise (2-3 sentences)\<newline>'' @
     ''- Use a friendly, conversational tone'' \<and>
   (digits_value (show_int pct) < digits_value ''80'' \<longleftrightarrow> pct < 80) \<and>
   (\<forall>pre post.
      generateFeedbackPrompt topic pct k n = pre @ ''improvement'' @ post \<longrightarrow>
        (\<exists>t1 t2. topic = t1 @ ''improvement'' @ t2 \<and>
            pre = ''Generate personalized feedback for a quiz taker who scored '' @
                  show_int k @ '' out of '' @ show_int n @ '' \<newline>on a '' @ t1) \<or>
        prefix '' if score < 80%'' post)\<close>
proof (intro conjI allI impI)
  from assms have n: "0 \<le> n" by simp
  show dp: "decimal (show_int pct) pct" using assms(1) by (rule show_int_decimal)
  show dk: "decimal (show_int k) k" using assms(3) by (rule show_int_decimal)
  show dn: "decimal (show_int n) n" using n by (rule show_int_decimal)
  show \<open>generateFeedbackPrompt topic pct k n =
     ''Generate personalized feedback for a quiz taker who scored '' @ show_int k @
     '' out of '' @ show_int n @ '' \<newline>on a '' @ topic @ '' quiz ('' @ show_int pct @
     ''%).\<newline>\<newline>Return ONLY valid JSON in this exact format:\<newline>'' @
     ''{\<newline>  "message": "Your personalized feedback message here"\<newline>}\<newline>\<newline>'' @
     ''Requirements:\<newline>- Be encouraging and positive\<newline>'' @
     ''- Acknowledge their performance level\<newline>'' @
     ''- Provide 1-2 specific suggestions for improvement if score < '' @ ''80'' @ ''%'' @
     ''\<newline>- Keep the message concise (2-3 sentences)\<newline>'' @
     ''- Use a friendly, conversational tone''\<close>
    by (simp add: generateFeedbackPrompt_def feedbackRequirements_def)
  have e: "digits_value ''80'' = 80" by (simp add: digits_value_def digit_val_def)
  from dp have "digits_value (show_int pct) = pct" by (simp add: decimal_def)
  with e show "digits_value (show_int pct) < digits_value ''80'' \<longleftrightarrow> pct < 80" by simp
next
  fix pre post
  assume occ: "generateFeedbackPrompt topic pct k n = pre @ ''improvement'' @ post"
  from assms have n: "0 \<le> n" by simp
  have "list_all is_digit (show_int k)" "list_all is_digit (show_int n)"
    "list_all is_digit (show_int pct)"
    using show_int_decimal [OF assms(3)] show_int_decimal [OF n] show_int_decimal [OF assms(1)]
    by (simp_all add: decimal_def)
  then show "(\<exists>t1 t2. topic = t1 @ ''improvement'' @ t2 \<and>
            pre = ''Generate personalized feedback for a quiz taker who scored '' @
                  show_int k @ '' out of '' @ show_int n @ '' \<newline>on a '' @ t1) \<or>
        prefix '' if score < 80%'' post"
    using occ by (rule improvement_only_conditional)
qed

lemma show_int_samples:
  "show_int 95 = ''95''" "show_int 19 = ''19''" "show_int 20 = ''20''"
  "show_int 60 = ''60''" "show_int 3 = ''3''" "show_int 5 = ''5''"
  by code_simp+

theorem generateFeedbackPrompt_improvement_clause_witness:
  \<open>generateFeedbackPrompt ''Science'' 95 19 20 =
     ''Generate personalized feedback for a quiz taker who scored 19 out of 20 \<newline>'' @
     ''on a Science quiz (95%).\<newline>\<newline>'' @
     ''Return ONLY valid JSON in this exact format:\<newline>'' @
     ''{\<newline>  "message": "Your personalized feedback message here"\<newline>}\<newline>\<newline>'' @
     ''Requirements:\<newline>- Be encouraging and positive\<newline>'' @
     ''- Acknowledge their performance level\<newline>'' @
     ''- Provide 1-2 specific suggestions for improvement if score < 80%\<newline>'' @
     ''- Keep the message concise (2-3 sentences)\<newline>'' @
     ''- Use a friendly, conversational tone'' \<and>
   generateFeedbackPrompt ''Science'' 60 3 5 =
     ''Generate personalized feedback for a quiz taker who scored 3 out of 5 \<newline>'' @
     ''on a Science quiz (60%).\<newline>\<newline>'' @
     ''Return ONLY valid JSON in this exact format:\<newline>'' @
     ''{\<newline>  "message": "Your personalized feedback message here"\<newline>}\<newline>\<newline>'' @
     ''Requirements:\<newline>- Be encouraging and positive\<newline>'' @
     ''- Acknowledge their performance level\<newline>'' @
     ''- Provide 1-2 specific suggestions for improvement if score < 80%\<newline>'' @
     ''- Keep the message concise (2-3 sentences)\<newline>'' @
     ''- Use a friendly, conversational tone'' \<and>
   decimal ''95'' 95 \<and> decimal ''60'' 60 \<and>
   \<not> digits_value ''95'' < digits_value ''80'' \<and>
   digits_value ''60'' < digits_value ''80''\<close>
proof -
  note a = generateFeedbackPrompt_improvement_clause [of 95 19 20 "''Science''"]
  note b = generateFeedbackPrompt_improvement_clause [of 60 3 5 "''Science''"]
  have a': "decimal ''95'' 95" "\<not> digits_value ''95'' < digits_value ''80''"
    and a'': "generateFeedbackPrompt ''Science'' 95 19 20 =
      ''Generate personalized feedback for a quiz taker who scored '' @ ''19'' @
      '' out of '' @ ''20'' @ '' \<newline>on a '' @ ''Science'' @ '' quiz ('' @ ''95'' @
      feedbackRequirements"
    using a by (simp_all add: show_int_samples feedbackRequirements_def)
  have b': "decimal ''60'' 60" "digits_value ''60'' < digits_value ''80''"
    and b'': "generateFeedbackPrompt ''Science'' 60 3 5 =
      ''Generate personalized feedback for a quiz taker who scored '' @ ''3'' @
      '' out of '' @ ''5'' @ '' \<newline>on a '' @ ''Science'' @ '' quiz ('' @ ''60'' @
      feedbackRequirements"
    using b by (simp_all add: show_int_samples feedbackRequirements_def)
  from a' a'' b' b'' show ?thesis by (simp add: feedbackRequirements_def)
qed

section \<open>Properties of the quiz context\<close>

lemma bitlen_bounds:
  "0 < p \<Longrightarrow> 1 \<le> bitlen p \<and> 2 ^ nat (bitlen p - 1) \<le> p \<and> p < 2 ^ nat (bitlen p)"
proof (induction p rule: bitlen.induct)
  case (1 n)
  show ?case
  proof (cases "n div 2 = 0")
    case True
    with "1.prems" have "n = 1" by presburger
    then show ?thesis by (simp add: bitlen.simps)
  next
    case False
    with "1.prems" have pos: "0 < n div 2" by presburger
    from "1.prems" have b: "bitlen n = 1 + bitlen (n div 2)"
      by (simp add: bitlen.simps [of n])
    from "1.IH" pos "1.prems" have ih: "1 \<le> bitlen (n div 2)"
      "2 ^ nat (bitlen (n div 2) - 1) \<le> n div 2" "n div 2 < 2 ^ nat (bitlen (n div 2))"
      by simp_all
    have e: "nat (bitlen n - 1) = Suc (nat (bitlen (n div 2) - 1))"
      "nat (bitlen n) = Suc (nat (bitlen (n div 2)))"
      using ih(1) b by simp_all
    from ih(2) have "2 * 2 ^ nat (bitlen (n div 2) - 1) \<le> n" by presburger
    moreover from ih(3) have "n < 2 * 2 ^ nat (bitlen (n div 2))" by presburger
    ultimately show ?thesis using ih(1) b unfolding e by simp
  qed
qed

lemma ilog2_lower:
  assumes "0 < a"
  shows "2 powi (ilog2 a) \<le> a"
proof -
  obtain p d where q: "quotient_of a = (p, d)" by (cases "quotient_of a")
  then have d: "0 < d" and a: "a = of_int p / of_int d"
    by (simp_all add: quotient_of_denom_pos quotient_of_div)
  with assms have p: "0 < p" by (simp add: zero_less_divide_iff)
  let ?k = "bitlen p - bitlen d"
  show ?thesis
  proof (cases "a < 2 powi ?k")
    case False
    with q show ?thesis by (simp add: ilog2_def)
  next
    case True
    with q have i: "ilog2 a = ?k - 1" by (simp add: ilog2_def)
    from bitlen_bounds [OF p] have bp: "1 \<le> bitlen p" "2 ^ nat (bitlen p - 1) \<le> p" by simp_all
    from bitlen_bounds [OF d] have bd: "1 \<le> bitlen d" "d < 2 ^ nat (bitlen d)" by simp_all
    have lp: "(2::rat) powi (bitlen p - 1) \<le> of_int p"
    proof -
      have "(of_int (2 ^ nat (bitlen p - 1)) :: rat) \<le> of_int p"
        using bp(2) by (simp only: of_int_le_iff)
      then show ?thesis using bp(1) by (simp add: power_int_nonneg_exp)
    qed
    have ud: "(of_int d :: rat) \<le> 2 powi (bitlen d)"
    proof -
      have "(of_int d :: rat) \<le> of_int (2 ^ nat (bitlen d))"
        using bd(2) by (simp only: of_int_le_iff)
      then show ?thesis using bd(1) by (simp add: power_int_nonneg_exp)
    qed
    have "?k - 1 = (bitlen p - 1) - bitlen d" by simp
    then have "(2::rat) powi (?k - 1) = 2 powi ((bitlen p - 1) - bitlen d)"
      by (rule arg_cong)
    also have "\<dots> = 2 powi (bitlen p - 1) / 2 powi (bitlen d)"
      by (rule power_int_diff) simp
    also have "\<dots> \<le> of_int p / 2 powi (bitlen d)"
      using lp by (simp add: divide_right_mono)
    also have "\<dots> \<le> of_int p / of_int d"
      using ud d p by (simp add: frac_le)
    finally have "(2::rat) powi (?k - 1) \<le> a" using a by simp
    then show ?thesis by (simp only: i)
  qed
qed

lemma round_half_even_le:
  "m \<le> of_int M \<Longrightarrow> round_half_even m \<le> M"
proof -
  assume le: "m \<le> of_int M"
  then have f: "\<lfloor>m\<rfloor> \<le> M" by (simp add: floor_le_iff)
  show ?thesis
  proof (cases "m = of_int \<lfloor>m\<rfloor>")
    case True
    then have "m - of_int \<lfloor>m\<rfloor> = 0" by simp
    then show ?thesis using f by (simp add: round_half_even_def Let_def)
  next
    case False
    then have "of_int \<lfloor>m\<rfloor> < m" using of_int_floor_le [of m] by linarith
    with le have "(of_int \<lfloor>m\<rfloor> :: rat) < of_int M" by linarith
    then have "\<lfloor>m\<rfloor> < M" by (simp only: of_int_less_iff)
    then show ?thesis by (simp add: round_half_even_def Let_def)
  qed
qed

lemma round_half_even_nonneg: "0 \<le> m \<Longrightarrow> 0 \<le> round_half_even m"
  by (simp add: round_half_even_def Let_def) 

lemma toDouble_le:
  assumes "0 \<le> q" and "q \<le> of_int B" and "B < 2 ^ 53"
  shows "\<exists>r. toDouble q = Num r \<and> 0 \<le> r \<and> r \<le> of_int B"
proof (cases "q = 0")
  case True
  with assms show ?thesis by (simp add: toDouble_def)
next
  case False
  with assms have q: "0 < q" by simp
  define e where "e = max (ilog2 q) (- 1022)"
  define ulp :: rat where "ulp = 2 powi (e - 52)"
  define r where "r = of_int (round_half_even (q / ulp)) * ulp"
  have "2 powi (ilog2 q) \<le> q" using q by (rule ilog2_lower)
  also have "q \<le> of_int B" by fact
  also have "(of_int B :: rat) < of_int (2 ^ 53)" using assms(3) by (simp only: of_int_less_iff)
  finally have "(2::rat) powi (ilog2 q) < 2 powi 53" by simp
  then have "ilog2 q < 53" by (rule power_int_le_imp_less_exp [rotated]) simp_all
  then have e52: "e \<le> 52" by (simp add: e_def)
  have ulp_pos: "0 < ulp" by (simp add: ulp_def)
  have inv: "1 / ulp = of_int (2 ^ nat (52 - e))"
    using e52 by (simp add: ulp_def power_int_diff power_int_nonneg_exp [symmetric] field_simps
                    flip: power_int_minus)
  have "q / ulp \<le> of_int B / ulp" using assms(2) ulp_pos by (simp add: divide_right_mono)
  also have "of_int B / ulp = of_int (B * 2 ^ nat (52 - e))"
  proof -
    have "of_int B / ulp = of_int B * (1 / ulp)" by simp
    also have "\<dots> = of_int (B * 2 ^ nat (52 - e))" unfolding inv by simp
    finally show ?thesis .
  qed
  finally have "round_half_even (q / ulp) \<le> B * 2 ^ nat (52 - e)"
    by (rule round_half_even_le)
  then have "(of_int (round_half_even (q / ulp)) :: rat) \<le> of_int (B * 2 ^ nat (52 - e))"
    by (simp only: of_int_le_iff)
  then have "r \<le> of_int (B * 2 ^ nat (52 - e)) * ulp"
    unfolding r_def using ulp_pos by (simp add: mult_right_mono)
  also have "\<dots> = of_int B"
  proof -
    have "of_int (B * 2 ^ nat (52 - e)) * ulp = of_int B * ((1 / ulp) * ulp)"
      unfolding inv by simp
    also have "\<dots> = of_int B" using ulp_pos by simp
    finally show ?thesis .
  qed
  finally have rB: "r \<le> of_int B" .
  have r0: "0 \<le> r"
    unfolding r_def using ulp_pos q by (simp add: round_half_even_nonneg)
  have "(of_int B :: rat) < of_int (2 ^ 53)" using assms(3) by (simp only: of_int_less_iff)
  also have "(of_int (2 ^ 53) :: rat) \<le> 2 ^ 1024" by simp
  finally have small: "\<not> 2 ^ 1024 \<le> r" using rB by simp
  have "toDouble q = Num r"
    using q small by (simp add: toDouble_def Let_def e_def ulp_def r_def)
  with r0 rB show ?thesis by blast
qed

lemma score_range:
  assumes "0 < tot" and "correct \<le> tot"
  shows "\<exists>i. 0 \<le> i \<and> i \<le> 100 \<and>
           Math_round (js_mul (js_div (Num (of_nat correct)) (Num (of_nat tot))) (Num 100))
             = Num (of_int i)"
proof -
  have "(of_nat correct :: rat) / of_nat tot \<le> 1" using assms by simp
  then have "0 \<le> (of_nat correct :: rat) / of_nat tot"
    "(of_nat correct :: rat) / of_nat tot \<le> of_int 1" by simp_all
  from toDouble_le [OF this] obtain x where
    x: "toDouble (of_nat correct / of_nat tot) = Num x" "0 \<le> x" "x \<le> 1" by auto
  from x(2,3) have "0 \<le> x * 100" "x * 100 \<le> of_int 100" by simp_all
  from toDouble_le [OF this] obtain y where
    y: "toDouble (x * 100) = Num y" "0 \<le> y" "y \<le> 100" by auto
  let ?i = "\<lfloor>y + 1 / 2\<rfloor>"
  have "0 \<le> ?i" using y(2) by simp
  moreover have "?i \<le> 100" using y(3) by (simp add: floor_le_iff)
  moreover have "Math_round (js_mul (js_div (Num (of_nat correct)) (Num (of_nat tot))) (Num 100))
             = Num (of_int ?i)"
    using assms(1) x(1) y(1) by simp
  ultimately show ?thesis by blast
qed

lemma score_three_of_five:
  "Math_round (js_mul (js_div (Num 3) (Num 5)) (Num 100)) = Num 60"
  by code_simp

lemma score_five_of_five:
  "Math_round (js_mul (js_div (Num 5) (Num 5)) (Num 100)) = Num 100"
  by code_simp

text \<open>
  \<open>finalizeQuiz\<close> stores the answers it is given and a result that records the number of
  questions of the quiz, the number of given answers flagged correct and the given
  answers. With 3 correct answers out of 5 questions the score is 60, with 5 out of 5 it
  is 100. When the quiz has a question and no more answers are flagged correct than there
  are questions, the score is an integer from 0 to 100.
\<close>

lemma finalizeQuiz_records:
  "quizResult (finalizeQuiz given st) =
     Some \<lparr>totalQuestions = length (questions st),
            correctAnswers = length (filter isCorrect given),
            score = Math_round
                      (js_mul (js_div (Num (of_nat (length (filter isCorrect given))))
                                      (Num (of_nat (length (questions st)))))
                              (Num 100)),
            answers = given\<rparr> \<and>
   userAnswers (finalizeQuiz given st) = given \<and>
   questions (finalizeQuiz given st) = questions st \<and>
   (length (filter isCorrect given) = 3 \<and> length (questions st) = 5 \<longrightarrow>
      map_option score (quizResult (finalizeQuiz given st)) = Some (Num 60)) \<and>
   (length (filter isCorrect given) = 5 \<and> length (questions st) = 5 \<longrightarrow>
      map_option score (quizResult (finalizeQuiz given st)) = Some (Num 100)) \<and>
   (0 < length (questions st) \<and> length (filter isCorrect given) \<le> length (questions st) \<longrightarrow>
      (\<exists>i. 0 \<le> i \<and> i \<le> 100 \<and>
           map_option score (quizResult (finalizeQuiz given st)) = Some (Num (of_int i))))"
  using score_range [of "length (questions st)" "length (filter isCorrect given)"]
  by (simp add: finalizeQuiz_def Let_def score_three_of_five score_five_of_five
        del: js_div.simps js_mul.simps Math_round.simps)

lemma finalizeQuiz_three_of_five:
  "quizResult (finalizeQuiz sample_answers sample_state) =
     Some \<lparr>totalQuestions = 5, correctAnswers = 3, score = Num 60, answers = sample_answers\<rparr>"
proof -
  have "length (filter isCorrect sample_answers) = 3" "length (questions sample_state) = 5"
    by (simp_all add: sample_answers_def sample_state_def)
  with finalizeQuiz_records [of sample_answers sample_state] show ?thesis
    by (simp add: score_three_of_five del: js_div.simps js_mul.simps Math_round.simps)
qed

lemma score_23_of_40:
  "Math_round (js_mul (js_div (Num 23) (Num 40)) (Num 100)) = Num 57"
  by code_simp

lemma quotient_23_of_40:
  "\<exists>x y. js_div (Num 23) (Num 40) = Num x \<and> x < 23 / 40 \<and>
         js_mul (Num x) (Num 100) = Num y \<and> y < 115 / 2"
proof -
  have "js_div (Num 23) (Num 40) = Num (2589569785738035 / 4503599627370496)"
    by code_simp
  moreover have "js_mul (Num (2589569785738035 / 4503599627370496)) (Num 100)
                   = Num (8092405580431359 / 140737488355328)"
    by code_simp
  moreover have "(2589569785738035 / 4503599627370496 :: rat) < 23 / 40"
    "(8092405580431359 / 140737488355328 :: rat) < 115 / 2"
    by simp_all
  ultimately show ?thesis by blast
qed

lemma answers_23_of_40_counts:
  "length (filter isCorrect answers_23_of_40) = 23" "length (questions state_40) = 40"
  by (code_simp, simp add: state_40_def)

text \<open>
  C8. The score that \<open>finalizeQuiz\<close> computes is not always the percentage rounded to the
  nearest integer. For a quiz of 40 questions with 23 answers flagged correct the
  percentage is 57.5, which rounds to 58; the code divides first, the binary64 quotient
  of 23 by 40 lies below 0.575, its product with 100 lies below 57.5, and \<open>Math.round\<close>
  gives 57. The result records the 40 questions, the 23 correct answers and the given
  answers.
\<close>

theorem finalizeQuiz_score_23_of_40:
  "quizResult (finalizeQuiz answers_23_of_40 state_40) =
     Some \<lparr>totalQuestions = 40, correctAnswers = 23, score = Num 57,
            answers = answers_23_of_40\<rparr> \<and>
   \<lfloor>(23 :: rat) / 40 * 100 + 1 / 2\<rfloor> = 58 \<and>
   (\<exists>x y. js_div (Num 23) (Num 40) = Num x \<and> x < 23 / 40 \<and>
          js_mul (Num x) (Num 100) = Num y \<and> y < 115 / 2)"
proof (intro conjI)
  show "quizResult (finalizeQuiz answers_23_of_40 state_40) =
     Some \<lparr>totalQuestions = 40, correctAnswers = 23, score = Num 57,
            answers = answers_23_of_40\<rparr>"
    by (simp add: finalizeQuiz_def Let_def answers_23_of_40_counts score_23_of_40
          del: js_div.simps js_mul.simps Math_round.simps)
  show "\<lfloor>(23 :: rat) / 40 * 100 + 1 / 2\<rfloor> = 58" by simp
  show "\<exists>x y. js_div (Num 23) (Num 40) = Num x \<and> x < 23 / 40 \<and>
          js_mul (Num x) (Num 100) = Num y \<and> y < 115 / 2"
    by (rule quotient_23_of_40)
qed

lemma findIndex_none:
  "findIndex P xs < 0 \<longleftrightarrow> (\<forall>x\<in>set xs. \<not> P x)"
  by (induction xs) (auto simp: Let_def)

lemma findIndex_bounds: "- 1 \<le> findIndex P xs \<and> findIndex P xs < int (length xs)"
  by (induction xs) (auto simp: Let_def)

lemma findIndex_first:
  "0 \<le> findIndex P xs \<Longrightarrow>
     P (xs ! nat (findIndex P xs)) \<and> (\<forall>j < nat (findIndex P xs). \<not> P (xs ! j))"
proof (induction xs)
  case Nil
  then show ?case by simp
next
  case (Cons x xs)
  show ?case
  proof (cases "P x")
    case True
    then show ?thesis by simp
  next
    case False
    with Cons.prems have nn: "0 \<le> findIndex P xs"
      by (simp add: Let_def split: if_splits)
    with False have e: "findIndex P (x # xs) = findIndex P xs + 1"
      by (simp add: Let_def)
    have n: "nat (findIndex P xs + 1) = Suc (nat (findIndex P xs))"
      using nn by simp
    from Cons.IH [OF nn] False show ?thesis
      unfolding e n by (auto simp: nth_Cons split: nat.splits)
  qed
qed

lemma updateAnswers_new:
  "qid \<notin> questionId ` set xs \<Longrightarrow>
     updateAnswers qid sel c xs = xs @ [\<lparr>questionId = qid, selectedOption = sel, isCorrect = c\<rparr>]"
proof -
  assume "qid \<notin> questionId ` set xs"
  then have "findIndex (\<lambda>a. questionId a = qid) xs < 0"
    by (auto simp: findIndex_none)
  then show ?thesis by (simp add: updateAnswers_def Let_def)
qed

lemma updateAnswers_existing:
  assumes "qid \<in> questionId ` set xs"
  shows "\<exists>i < length xs. questionId (xs ! i) = qid \<and> (\<forall>j < i. questionId (xs ! j) \<noteq> qid) \<and>
           updateAnswers qid sel c xs =
             xs[i := \<lparr>questionId = qid, selectedOption = sel, isCorrect = c\<rparr>]"
proof -
  let ?i = "findIndex (\<lambda>a. questionId a = qid) xs"
  from assms have nn: "0 \<le> ?i"
    using findIndex_none [of "\<lambda>a. questionId a = qid" xs] by fastforce
  have lt: "nat ?i < length xs"
    using findIndex_bounds [of "\<lambda>a. questionId a = qid" xs] nn by linarith
  from findIndex_first [OF nn] lt nn show ?thesis
    by (intro exI [of _ "nat ?i"]) (simp add: updateAnswers_def Let_def)
qed

lemma map_questionId_update:
  "i < length xs \<Longrightarrow> questionId (xs ! i) = qid \<Longrightarrow>
     map questionId (xs[i := \<lparr>questionId = qid, selectedOption = sel, isCorrect = c\<rparr>])
       = map questionId xs"
  by (simp add: map_update list_update_same_conv)

lemma updateAnswers_ids:
  "map questionId (updateAnswers qid sel c xs) =
     (if qid \<in> questionId ` set xs then map questionId xs else map questionId xs @ [qid])"
proof (cases "qid \<in> questionId ` set xs")
  case True
  from updateAnswers_existing [OF True, of sel c] obtain i where
    "i < length xs" "questionId (xs ! i) = qid"
    "updateAnswers qid sel c xs = xs[i := \<lparr>questionId = qid, selectedOption = sel, isCorrect = c\<rparr>]"
    by blast
  with True show ?thesis by (simp add: map_questionId_update)
next
  case False
  then show ?thesis by (simp add: updateAnswers_new)
qed

lemma updateAnswers_distinct:
  "distinct (map questionId xs) \<Longrightarrow> distinct (map questionId (updateAnswers qid sel c xs))"
  by (simp add: updateAnswers_ids)

lemma answerAll_distinct:
  "distinct (map questionId (userAnswers st)) \<Longrightarrow>
     distinct (map questionId (userAnswers (answerAll ops st)))"
proof (induction ops arbitrary: st)
  case Nil
  then show ?case by (simp add: answerAll_def)
next
  case (Cons op ops)
  obtain qid sel cor where op: "op = (qid, sel, cor)" by (cases op)
  have "distinct (map questionId (userAnswers (answerQuestion qid sel cor st)))"
    using Cons.prems by (simp add: answerQuestion_def updateAnswers_distinct)
  from Cons.IH [OF this] show ?case by (simp add: answerAll_def op)
qed

lemma updateAnswers_set:
  "set (updateAnswers qid sel c xs) \<subseteq>
     insert \<lparr>questionId = qid, selectedOption = sel, isCorrect = c\<rparr> (set xs)"
  using set_update_subset_insert [of xs]
  by (auto simp: updateAnswers_def Let_def)

lemma answerAll_origin:
  "a \<in> set (userAnswers (answerAll ops st)) \<Longrightarrow>
     a \<in> set (userAnswers st) \<or>
     (\<exists>sel cor. (questionId a, sel, cor) \<in> set ops \<and> selectedOption a = sel \<and>
                isCorrect a = strict_eq_num sel cor)"
proof (induction ops arbitrary: st)
  case Nil
  then show ?case by (simp add: answerAll_def)
next
  case (Cons op ops)
  obtain qid sel cor where op: "op = (qid, sel, cor)" by (cases op)
  from Cons.prems have "a \<in> set (userAnswers (answerAll ops (answerQuestion qid sel cor st)))"
    by (simp add: answerAll_def op)
  from Cons.IH [OF this] show ?case
  proof
    assume "a \<in> set (userAnswers (answerQuestion qid sel cor st))"
    then have "a = \<lparr>questionId = qid, selectedOption = sel, isCorrect = strict_eq_num sel cor\<rparr>
                 \<or> a \<in> set (userAnswers st)"
      using updateAnswers_set [of qid sel "strict_eq_num sel cor" "userAnswers st"]
      by (auto simp: answerQuestion_def)
    then show ?thesis by (auto simp: op)
  next
    assume "\<exists>sel cor. (questionId a, sel, cor) \<in> set ops \<and> selectedOption a = sel \<and>
                isCorrect a = strict_eq_num sel cor"
    then show ?thesis by auto
  qed
qed

text \<open>
  C9. Starting from no answers, after any sequence of \<open>answerQuestion\<close> calls the stored
  answers have pairwise different question ids, and each stored answer carries the
  selected option of one of the calls for its question, with \<open>isCorrect\<close> the outcome of
  \<open>selectedOption === correctAnswer\<close> of that call. One call keeps the ids distinct;
  for a question already answered it replaces the entry at the position of that answer
  and keeps the length; for a new question it appends one entry.
\<close>

theorem answerQuestion_one_answer_per_question:
  "(userAnswers st = [] \<longrightarrow>
      distinct (map questionId (userAnswers (answerAll ops st))) \<and>
      (\<forall>a\<in>set (userAnswers (answerAll ops st)).
         \<exists>sel cor. (questionId a, sel, cor) \<in> set ops \<and> selectedOption a = sel \<and>
                   isCorrect a = strict_eq_num sel cor)) \<and>
   (distinct (map questionId (userAnswers st)) \<longrightarrow>
      distinct (map questionId (userAnswers (answerQuestion qid selected correctAnswer st)))) \<and>
   (qid \<in> questionId ` set (userAnswers st) \<longrightarrow>
      length (userAnswers (answerQuestion qid selected correctAnswer st))
        = length (userAnswers st) \<and>
      (\<exists>i < length (userAnswers st).
         questionId (userAnswers st ! i) = qid \<and>
         (\<forall>j < i. questionId (userAnswers st ! j) \<noteq> qid) \<and>
         userAnswers (answerQuestion qid selected correctAnswer st) =
           (userAnswers st)[i := \<lparr>questionId = qid, selectedOption = selected,
                                    isCorrect = strict_eq_num selected correctAnswer\<rparr>])) \<and>
   (qid \<notin> questionId ` set (userAnswers st) \<longrightarrow>
      userAnswers (answerQuestion qid selected correctAnswer st) =
        userAnswers st @ [\<lparr>questionId = qid, selectedOption = selected,
                            isCorrect = strict_eq_num selected correctAnswer\<rparr>])"
proof (intro conjI impI ballI)
  assume "userAnswers st = []"
  then show "distinct (map questionId (userAnswers (answerAll ops st)))"
    by (intro answerAll_distinct) simp
next
  fix a
  assume "userAnswers st = []" and "a \<in> set (userAnswers (answerAll ops st))"
  with answerAll_origin [of a ops st]
  show "\<exists>sel cor. (questionId a, sel, cor) \<in> set ops \<and> selectedOption a = sel \<and>
                   isCorrect a = strict_eq_num sel cor"
    by simp
next
  assume "distinct (map questionId (userAnswers st))"
  then show "distinct (map questionId (userAnswers (answerQuestion qid selected correctAnswer st)))"
    by (simp add: answerQuestion_def updateAnswers_distinct)
next
  assume h: "qid \<in> questionId ` set (userAnswers st)"
  from updateAnswers_existing [OF h, of selected "strict_eq_num selected correctAnswer"]
  show "\<exists>i < length (userAnswers st).
         questionId (userAnswers st ! i) = qid \<and>
         (\<forall>j < i. questionId (userAnswers st ! j) \<noteq> qid) \<and>
         userAnswers (answerQuestion qid selected correctAnswer st) =
           (userAnswers st)[i := \<lparr>questionId = qid, selectedOption = selected,
                                    isCorrect = strict_eq_num selected correctAnswer\<rparr>]"
    by (simp add: answerQuestion_def)
  then show "length (userAnswers (answerQuestion qid selected correctAnswer st))
               = length (userAnswers st)"
    by auto
next
  assume "qid \<notin> questionId ` set (userAnswers st)"
  then show "userAnswers (answerQuestion qid selected correctAnswer st) =
        userAnswers st @ [\<lparr>questionId = qid, selectedOption = selected,
                            isCorrect = strict_eq_num selected correctAnswer\<rparr>]"
    by (simp add: answerQuestion_def updateAnswers_new)
qed

theorem answerQuestion_one_answer_per_question_witness:
  "userAnswers (answerAll [(''q1'', Num 3, Num 3), (''q2'', Num 0, Num 1), (''q1'', Num 2, Num 3)]
                  sample_state) =
     [\<lparr>questionId = ''q1'', selectedOption = Num 2, isCorrect = False\<rparr>,
      \<lparr>questionId = ''q2'', selectedOption = Num 0, isCorrect = False\<rparr>] \<and>
   distinct (map questionId (userAnswers
     (answerAll [(''q1'', Num 3, Num 3), (''q2'', Num 0, Num 1), (''q1'', Num 2, Num 3)]
        sample_state))) \<and>
   userAnswers (answerQuestion ''q7'' (Num 1) (Num 1) sample_state) =
     [\<lparr>questionId = ''q7'', selectedOption = Num 1, isCorrect = True\<rparr>]"
proof -
  let ?ops = "[(''q1'', Num 3, Num 3), (''q2'', Num 0, Num 1), (''q1'', Num 2, Num 3)]"
  have e: "userAnswers sample_state = []" by (simp add: sample_state_def)
  have A: "userAnswers (answerAll ?ops sample_state) =
     [\<lparr>questionId = ''q1'', selectedOption = Num 2, isCorrect = False\<rparr>,
      \<lparr>questionId = ''q2'', selectedOption = Num 0, isCorrect = False\<rparr>]"
    by (simp add: answerAll_def answerQuestion_def updateAnswers_def sample_state_def)
  have B: "distinct (map questionId (userAnswers (answerAll ?ops sample_state)))"
    using answerQuestion_one_answer_per_question [of sample_state ?ops] e by simp
  have C: "userAnswers (answerQuestion ''q7'' (Num 1) (Num 1) sample_state) =
     [\<lparr>questionId = ''q7'', selectedOption = Num 1, isCorrect = True\<rparr>]"
    using answerQuestion_one_answer_per_question [of sample_state "[]" "''q7''" "Num 1" "Num 1"] e
    by simp
  from A B C show ?thesis by simp
qed

end
